theory Spec2Isabelle
  imports Complex_Main "HOL-Library.AList"
begin

section \<open>JavaScript values, objects and the heap\<close>

text \<open>
  The module \<open>Maker.Point\<close> (\<open>src/point.ts\<close>) is TypeScript whose types are erased at run
  time: every parameter can hold any JavaScript value. Values are modelled as a datatype,
  objects live in a heap and are named by references, so that the identity of an object
  (the same reference or a new one) and in-place mutation are visible.

  A number is an IEEE 754 double: a finite value, held as the real number it denotes, one
  of the two infinities, or \<open>NaN\<close>. Negative zero is not distinguished from zero. BigInt
  values are not part of the model.
\<close>

datatype number = Fin real | PInf | NInf | NaN

datatype jsval =
  Undefined | Null | Bool bool | Num number | Str string | Symbol nat | Ref nat

text \<open>
  An object has named properties, in insertion order; an array is an object that also has
  a list of indexed elements. Objects are plain data: own properties holding values, no
  accessor properties and no prototype chain.
\<close>

record jsobj =
  props :: "(string \<times> jsval) list"
  elems :: "jsval list option"

text \<open>The heap is the list of all objects allocated so far; a reference is an index.\<close>

type_synonym heap = "jsobj list"

datatype error = TypeError | Thrown jsval

text \<open>A computation reads and extends the heap, and returns a value or raises.\<close>

type_synonym 'a js = "heap \<Rightarrow> error + ('a \<times> heap)"

definition ret :: "'a \<Rightarrow> 'a js" where
  "ret v = (\<lambda>h. Inr (v, h))"

definition throw :: "error \<Rightarrow> 'a js" where
  "throw e = (\<lambda>h. Inl e)"

definition bindM :: "'a js \<Rightarrow> ('a \<Rightarrow> 'b js) \<Rightarrow> 'b js" where
  "bindM m f = (\<lambda>h. case m h of Inl e \<Rightarrow> Inl e | Inr (v, h') \<Rightarrow> f v h')"

definition reads :: "(heap \<Rightarrow> 'a) \<Rightarrow> 'a js" where
  "reads f = (\<lambda>h. Inr (f h, h))"

definition lift :: "(heap \<Rightarrow> error + 'a) \<Rightarrow> 'a js" where
  "lift f = (\<lambda>h. case f h of Inl e \<Rightarrow> Inl e | Inr v \<Rightarrow> Inr (v, h))"

definition heap_lookup :: "heap \<Rightarrow> nat \<Rightarrow> jsobj option" where
  "heap_lookup h a = (if a < length h then Some (h ! a) else None)"

definition alloc :: "jsobj \<Rightarrow> jsval js" where
  "alloc ob = (\<lambda>h. Inr (Ref (length h), h @ [ob]))"

text \<open>
  Reading a property \<open>v.k\<close>. On \<open>undefined\<close> and \<open>null\<close> JavaScript raises a TypeError; on
  the other primitives and on an object without the property the result is \<open>undefined\<close>.
  The module reads only the properties \<open>x\<close>, \<open>y\<close>, \<open>origin\<close>, \<open>radius\<close>, \<open>startAngle\<close> and
  \<open>endAngle\<close> this way. A reference outside the heap cannot occur in JavaScript; it reads
  as an object without properties.
\<close>

definition own_prop :: "heap \<Rightarrow> nat \<Rightarrow> string \<Rightarrow> jsval" where
  "own_prop h a k =
     (case heap_lookup h a of
        None \<Rightarrow> Undefined
      | Some ob \<Rightarrow> (case map_of (props ob) k of None \<Rightarrow> Undefined | Some v \<Rightarrow> v))"

fun getProp :: "jsval \<Rightarrow> string \<Rightarrow> jsval js" where
  "getProp Undefined k = throw TypeError"
| "getProp Null k = throw TypeError"
| "getProp (Ref a) k = reads (\<lambda>h. own_prop h a k)"
| "getProp v k = ret Undefined"

text \<open>
  Writing a property \<open>v.k = w\<close>: the object is updated in place, at its own reference.
  On a primitive other than \<open>undefined\<close> and \<open>null\<close> the write is dropped.
\<close>

definition store_prop :: "nat \<Rightarrow> string \<Rightarrow> jsval \<Rightarrow> heap \<Rightarrow> heap" where
  "store_prop a k w h =
     (if a < length h then h[a := (h ! a)\<lparr>props := AList.update k w (props (h ! a))\<rparr>] else h)"

fun setProp :: "jsval \<Rightarrow> string \<Rightarrow> jsval \<Rightarrow> unit js" where
  "setProp Undefined k w = throw TypeError"
| "setProp Null k w = throw TypeError"
| "setProp (Ref a) k w = (\<lambda>h. Inr ((), store_prop a k w h))"
| "setProp v k w = ret ()"

text \<open>\<open>Array.isArray(v)\<close>, \<open>v.length\<close> and \<open>v[i]\<close> of an array.\<close>

definition array_elems :: "heap \<Rightarrow> jsval \<Rightarrow> jsval list option" where
  "array_elems h v =
     (case v of
        Ref a \<Rightarrow> (case heap_lookup h a of None \<Rightarrow> None | Some ob \<Rightarrow> elems ob)
      | _ \<Rightarrow> None)"

definition isArray :: "heap \<Rightarrow> jsval \<Rightarrow> bool" where
  "isArray h v = (array_elems h v \<noteq> None)"

definition arrayLength :: "heap \<Rightarrow> jsval \<Rightarrow> nat" where
  "arrayLength h v = (case array_elems h v of None \<Rightarrow> 0 | Some es \<Rightarrow> length es)"

definition getIndex :: "heap \<Rightarrow> jsval \<Rightarrow> nat \<Rightarrow> jsval" where
  "getIndex h v i =
     (case array_elems h v of
        None \<Rightarrow> Undefined
      | Some es \<Rightarrow> (if i < length es then es ! i else Undefined))"

text \<open>The \<open>arguments\<close> object of a call: a missing argument reads as \<open>undefined\<close>.\<close>

definition argument :: "jsval list \<Rightarrow> nat \<Rightarrow> jsval" where
  "argument args i = (if i < length args then args ! i else Undefined)"

subsection \<open>Arithmetic on doubles\<close>

text \<open>
  The result of \<open>+\<close>, \<open>-\<close> and \<open>*\<close> on finite doubles is the exact result rounded to the
  nearest double, ties to the even significand (53 bits, the exponent of the last place
  at least \<open>-1074\<close>). An exact result of magnitude \<open>2^1024 - 2^970\<close> or more rounds to an
  infinity.
\<close>

definition round_even :: "real \<Rightarrow> int" where
  "round_even x =
     (let f = \<lfloor>x\<rfloor>; d = x - of_int f
      in if d < 1 / 2 then f else if 1 / 2 < d then f + 1 else if even f then f else f + 1)"

definition ulp_exponent :: "real \<Rightarrow> int" where
  "ulp_exponent x = max (\<lfloor>log 2 \<bar>x\<bar>\<rfloor> - 52) (- 1074)"

definition nearest_double :: "real \<Rightarrow> real" where
  "nearest_double x =
     (if x = 0 then 0
      else of_int (round_even (x / 2 powi ulp_exponent x)) * 2 powi ulp_exponent x)"

definition overflow_threshold :: real where
  "overflow_threshold = 2 ^ 1024 - 2 ^ 970"

definition round64 :: "real \<Rightarrow> number" where
  "round64 x =
     (if overflow_threshold \<le> x then PInf
      else if x \<le> - overflow_threshold then NInf
      else Fin (nearest_double x))"


fun is_negative :: "number \<Rightarrow> bool" where
  "is_negative (Fin a) = (a < 0)"
| "is_negative NInf = True"
| "is_negative n = False"

fun num_neg :: "number \<Rightarrow> number" where
  "num_neg (Fin a) = Fin (- a)"
| "num_neg PInf = NInf"
| "num_neg NInf = PInf"
| "num_neg NaN = NaN"

fun num_add :: "number \<Rightarrow> number \<Rightarrow> number" where
  "num_add (Fin a) (Fin b) = round64 (a + b)"
| "num_add NaN b = NaN"
| "num_add a NaN = NaN"
| "num_add PInf NInf = NaN"
| "num_add NInf PInf = NaN"
| "num_add PInf b = PInf"
| "num_add a PInf = PInf"
| "num_add NInf b = NInf"
| "num_add a NInf = NInf"

definition num_sub :: "number \<Rightarrow> number \<Rightarrow> number" where
  "num_sub a b = num_add a (num_neg b)"

fun num_mul :: "number \<Rightarrow> number \<Rightarrow> number" where
  "num_mul (Fin a) (Fin b) = round64 (a * b)"
| "num_mul NaN b = NaN"
| "num_mul a NaN = NaN"
| "num_mul (Fin a) b = (if a = 0 then NaN else if (a < 0) = is_negative b then PInf else NInf)"
| "num_mul a (Fin b) = (if b = 0 then NaN else if is_negative a = (b < 0) then PInf else NInf)"
| "num_mul a b = (if is_negative a = is_negative b then PInf else NInf)"

subsection \<open>Conversions and operators\<close>

text \<open>
  The conversions between strings and numbers, the conversion of an object to a
  primitive and the approximations \<open>Math.cos\<close> and \<open>Math.sin\<close> belong to the JavaScript
  runtime, and the angle and measurement utilities (\<open>Angle.ToRadians\<close>,
  \<open>Angle.FromPointToRadians\<close>, \<open>Measure.PointDistance\<close>) to other files of the library.
  All of them are parameters of the model. The conversion of an object runs the object's
  own \<open>valueOf\<close> and \<open>toString\<close>, in the order that the hint of the operator asks for; it
  may give any value or raise (an object without \<open>valueOf\<close> and \<open>toString\<close> raises a
  TypeError). The utilities read the heap and may raise. None of them allocates or
  mutates (the specification takes the utilities as pure functions).
\<close>

datatype hint = HintDefault | HintNumber

record host =
  StringToNumber :: "string \<Rightarrow> number"
  NumberToString :: "number \<Rightarrow> string"
  ObjectToPrimitive :: "hint \<Rightarrow> heap \<Rightarrow> nat \<Rightarrow> error + jsval"
  MathCos :: "real \<Rightarrow> number"
  MathSin :: "real \<Rightarrow> number"
  ToRadians :: "heap \<Rightarrow> jsval \<Rightarrow> error + jsval"
  FromPointToRadians :: "heap \<Rightarrow> jsval \<Rightarrow> jsval \<Rightarrow> error + jsval"
  PointDistance :: "heap \<Rightarrow> jsval \<Rightarrow> jsval \<Rightarrow> error + jsval"

definition bindE :: "error + 'a \<Rightarrow> ('a \<Rightarrow> error + 'b) \<Rightarrow> error + 'b" where
  "bindE r f = (case r of Inl e \<Rightarrow> Inl e | Inr v \<Rightarrow> f v)"

fun ToBoolean :: "jsval \<Rightarrow> bool" where
  "ToBoolean Undefined = False"
| "ToBoolean Null = False"
| "ToBoolean (Bool b) = b"
| "ToBoolean (Num (Fin r)) = (r \<noteq> 0)"
| "ToBoolean (Num NaN) = False"
| "ToBoolean (Num n) = True"
| "ToBoolean (Str s) = (s \<noteq> [])"
| "ToBoolean (Symbol s) = True"
| "ToBoolean (Ref a) = True"

text \<open>
  \<open>ToPrimitive\<close>: a primitive is left as it is; an object is converted by the runtime,
  and a conversion that ends in an object raises a TypeError.
\<close>

fun ToPrimitive :: "host \<Rightarrow> hint \<Rightarrow> heap \<Rightarrow> jsval \<Rightarrow> error + jsval" where
  "ToPrimitive rt hnt h (Ref a) =
     (case ObjectToPrimitive rt hnt h a of
        Inl e \<Rightarrow> Inl e
      | Inr (Ref b) \<Rightarrow> Inl TypeError
      | Inr v \<Rightarrow> Inr v)"
| "ToPrimitive rt hnt h v = Inr v"

text \<open>\<open>ToNumber\<close> and \<open>ToString\<close> of a primitive: a Symbol raises a TypeError.\<close>

fun ToNumber :: "host \<Rightarrow> jsval \<Rightarrow> error + number" where
  "ToNumber rt Undefined = Inr NaN"
| "ToNumber rt Null = Inr (Fin 0)"
| "ToNumber rt (Bool b) = Inr (Fin (if b then 1 else 0))"
| "ToNumber rt (Num n) = Inr n"
| "ToNumber rt (Str s) = Inr (StringToNumber rt s)"
| "ToNumber rt (Symbol s) = Inl TypeError"
| "ToNumber rt (Ref a) = Inl TypeError"

fun ToString :: "host \<Rightarrow> jsval \<Rightarrow> error + string" where
  "ToString rt Undefined = Inr ''undefined''"
| "ToString rt Null = Inr ''null''"
| "ToString rt (Bool b) = Inr (if b then ''true'' else ''false'')"
| "ToString rt (Num n) = Inr (NumberToString rt n)"
| "ToString rt (Str s) = Inr s"
| "ToString rt (Symbol s) = Inl TypeError"
| "ToString rt (Ref a) = Inl TypeError"

definition ToNumeric :: "host \<Rightarrow> heap \<Rightarrow> jsval \<Rightarrow> error + number" where
  "ToNumeric rt h v = bindE (ToPrimitive rt HintNumber h v) (ToNumber rt)"

fun is_Str :: "jsval \<Rightarrow> bool" where
  "is_Str (Str s) = True"
| "is_Str v = False"

fun num_cos :: "host \<Rightarrow> number \<Rightarrow> number" where
  "num_cos rt (Fin a) = MathCos rt a"
| "num_cos rt n = NaN"

fun num_sin :: "host \<Rightarrow> number \<Rightarrow> number" where
  "num_sin rt (Fin a) = MathSin rt a"
| "num_sin rt n = NaN"

text \<open>
  \<open>a + b\<close> converts both operands to primitives, then concatenates when either is a
  string and adds numbers otherwise; \<open>a - b\<close>, \<open>a * b\<close>, \<open>-a\<close>, \<open>Math.cos(a)\<close> and
  \<open>Math.sin(a)\<close> convert to numbers, the left operand first.
\<close>

definition js_plus :: "host \<Rightarrow> heap \<Rightarrow> jsval \<Rightarrow> jsval \<Rightarrow> error + jsval" where
  "js_plus rt h a b =
     bindE (ToPrimitive rt HintDefault h a) (\<lambda>pa.
     bindE (ToPrimitive rt HintDefault h b) (\<lambda>pb.
       if is_Str pa \<or> is_Str pb
       then bindE (ToString rt pa) (\<lambda>sa.
            bindE (ToString rt pb) (\<lambda>sb. Inr (Str (sa @ sb))))
       else bindE (ToNumber rt pa) (\<lambda>na.
            bindE (ToNumber rt pb) (\<lambda>nb. Inr (Num (num_add na nb))))))"

definition js_minus :: "host \<Rightarrow> heap \<Rightarrow> jsval \<Rightarrow> jsval \<Rightarrow> error + jsval" where
  "js_minus rt h a b =
     bindE (ToNumeric rt h a) (\<lambda>na.
     bindE (ToNumeric rt h b) (\<lambda>nb. Inr (Num (num_sub na nb))))"

definition js_times :: "host \<Rightarrow> heap \<Rightarrow> jsval \<Rightarrow> jsval \<Rightarrow> error + jsval" where
  "js_times rt h a b =
     bindE (ToNumeric rt h a) (\<lambda>na.
     bindE (ToNumeric rt h b) (\<lambda>nb. Inr (Num (num_mul na nb))))"

definition js_neg :: "host \<Rightarrow> heap \<Rightarrow> jsval \<Rightarrow> error + jsval" where
  "js_neg rt h a = bindE (ToNumeric rt h a) (\<lambda>n. Inr (Num (num_neg n)))"

definition Math_cos :: "host \<Rightarrow> heap \<Rightarrow> jsval \<Rightarrow> error + jsval" where
  "Math_cos rt h a = bindE (ToNumeric rt h a) (\<lambda>n. Inr (Num (num_cos rt n)))"

definition Math_sin :: "host \<Rightarrow> heap \<Rightarrow> jsval \<Rightarrow> error + jsval" where
  "Math_sin rt h a = bindE (ToNumeric rt h a) (\<lambda>n. Inr (Num (num_sin rt n)))"

section \<open>The module \<open>Maker.Point\<close>\<close>

text \<open>The object literal \<open>{ x: vx, y: vy }\<close>: a new object on the heap.\<close>

definition point_obj :: "jsval \<Rightarrow> jsval \<Rightarrow> jsobj" where
  "point_obj vx vy = \<lparr>props = [(''x'', vx), (''y'', vy)], elems = None\<rparr>"

definition array_obj :: "jsval list \<Rightarrow> jsobj" where
  "array_obj es = \<lparr>props = [], elems = Some es\<rparr>"

text \<open>
  Modelled from the spec: \<open>IsPoint\<close> is defined in \<open>maker.ts\<close>, which is not among the
  sources. The specification describes it as "satisfies the Point shape (has numeric
  \<open>x\<close> and \<open>y\<close>)": an object whose properties \<open>x\<close> and \<open>y\<close> both hold numbers.
\<close>

fun is_number :: "jsval \<Rightarrow> bool" where
  "is_number (Num n) = True"
| "is_number v = False"

fun IsPoint :: "heap \<Rightarrow> jsval \<Rightarrow> bool" where
  "IsPoint h (Ref a) =
     (case heap_lookup h a of
        None \<Rightarrow> False
      | Some ob \<Rightarrow>
          (case (map_of (props ob) ''x'', map_of (props ob) ''y'') of
             (Some vx, Some vy) \<Rightarrow> is_number vx \<and> is_number vy
           | _ \<Rightarrow> False))"
| "IsPoint h v = False"

text \<open>\<open>Zero()\<close>: \<open>return { x: 0, y: 0 }\<close>.\<close>

definition Zero :: "jsval js" where
  "Zero = alloc (point_obj (Num (Fin 0)) (Num (Fin 0)))"

text \<open>\<open>Clone(point)\<close>: \<open>return { x: point.x, y: point.y }\<close>.\<close>

definition Clone :: "jsval \<Rightarrow> jsval js" where
  "Clone point =
     bindM (getProp point ''x'') (\<lambda>vx.
     bindM (getProp point ''y'') (\<lambda>vy.
     alloc (point_obj vx vy)))"

text \<open>
  \<open>Ensure(item?)\<close>, called with the argument list \<open>arguments\<close>; \<open>item\<close> is its first
  element, \<open>undefined\<close> when the list is empty.
\<close>

definition Ensure :: "jsval list \<Rightarrow> jsval js" where
  "Ensure arguments =
     (let item = argument arguments 0 in
      if \<not> ToBoolean item then Zero
      else (\<lambda>h.
        if IsPoint h item then ret item h
        else if isArray h item \<and> arrayLength h item > 1
          then alloc (point_obj (getIndex h item 0) (getIndex h item 1)) h
        else if length arguments > 1
          then alloc (point_obj (argument arguments 0) (argument arguments 0)) h
        else Zero h))"

text \<open>
  A compound assignment \<open>target.k op= rhs\<close>: the old value of \<open>target.k\<close> is read first, then
  the right-hand side is evaluated, then the result is stored in \<open>target.k\<close>.
\<close>

definition compound_assign ::
  "(heap \<Rightarrow> jsval \<Rightarrow> jsval \<Rightarrow> error + jsval) \<Rightarrow> jsval \<Rightarrow> string \<Rightarrow> jsval js \<Rightarrow> unit js"
  where
  "compound_assign opr target k rhs =
     bindM (getProp target k) (\<lambda>lval.
     bindM rhs (\<lambda>rval.
     bindM (lift (\<lambda>h. opr h lval rval)) (\<lambda>r.
     setProp target k r)))"

text \<open>
  \<open>Add(a, b, subtract = false)\<close>: the default value replaces an argument that is
  \<open>undefined\<close> (or not given).
\<close>

definition Add :: "host \<Rightarrow> jsval \<Rightarrow> jsval \<Rightarrow> jsval \<Rightarrow> jsval js" where
  "Add rt a b subtract_arg =
     (let subtract = (if subtract_arg = Undefined then Bool False else subtract_arg) in
      bindM (Ensure [a]) (\<lambda>ea.
      bindM (Clone ea) (\<lambda>p1.
      bindM (Ensure [b]) (\<lambda>p2.
      bindM (if ToBoolean subtract
             then bindM (compound_assign (js_minus rt) p1 ''x'' (getProp p2 ''x'')) (\<lambda>_.
                         compound_assign (js_minus rt) p1 ''y'' (getProp p2 ''y''))
             else bindM (compound_assign (js_plus rt) p1 ''x'' (getProp p2 ''x'')) (\<lambda>_.
                         compound_assign (js_plus rt) p1 ''y'' (getProp p2 ''y''))) (\<lambda>_.
      ret p1)))))"

text \<open>
  \<open>FromPolar(angleInRadians, radius)\<close>:
  \<open>return { x: radius * Math.cos(angleInRadians), y: radius * Math.sin(angleInRadians) }\<close>.
\<close>

definition FromPolar :: "host \<Rightarrow> jsval \<Rightarrow> jsval \<Rightarrow> jsval js" where
  "FromPolar rt angleInRadians radius =
     bindM (lift (\<lambda>h. Math_cos rt h angleInRadians)) (\<lambda>c.
     bindM (lift (\<lambda>h. js_times rt h radius c)) (\<lambda>vx.
     bindM (lift (\<lambda>h. Math_sin rt h angleInRadians)) (\<lambda>s.
     bindM (lift (\<lambda>h. js_times rt h radius s)) (\<lambda>vy.
     alloc (point_obj vx vy)))))"

text \<open>
  \<open>FromArc(arc)\<close> with its local function
  \<open>getPointFromAngle(angle) = Add(arc.origin, FromPolar(Angle.ToRadians(angle), arc.radius))\<close>;
  the result is the array literal of the two points.
\<close>

definition getPointFromAngle :: "host \<Rightarrow> jsval \<Rightarrow> jsval \<Rightarrow> jsval js" where
  "getPointFromAngle rt arc angle =
     bindM (getProp arc ''origin'') (\<lambda>origin.
     bindM (lift (\<lambda>h. ToRadians rt h angle)) (\<lambda>radians.
     bindM (getProp arc ''radius'') (\<lambda>radius.
     bindM (FromPolar rt radians radius) (\<lambda>polar.
     Add rt origin polar Undefined))))"

definition FromArc :: "host \<Rightarrow> jsval \<Rightarrow> jsval js" where
  "FromArc rt arc =
     bindM (getProp arc ''startAngle'') (\<lambda>startAngle.
     bindM (getPointFromAngle rt arc startAngle) (\<lambda>p0.
     bindM (getProp arc ''endAngle'') (\<lambda>endAngle.
     bindM (getPointFromAngle rt arc endAngle) (\<lambda>p1.
     alloc (array_obj [p0, p1])))))"

text \<open>
  \<open>Mirror(point, mirrorX, mirrorY)\<close>:
  \<open>var p = Clone(Ensure(point)); if (mirrorX) p.x = -p.x; if (mirrorY) p.y = -p.y; return p\<close>.
\<close>

definition negate_prop :: "host \<Rightarrow> jsval \<Rightarrow> string \<Rightarrow> unit js" where
  "negate_prop rt p k =
     bindM (getProp p k) (\<lambda>v.
     bindM (lift (\<lambda>h. js_neg rt h v)) (\<lambda>r.
     setProp p k r))"

definition Mirror :: "host \<Rightarrow> jsval \<Rightarrow> jsval \<Rightarrow> jsval \<Rightarrow> jsval js" where
  "Mirror rt point mirrorX mirrorY =
     bindM (Ensure [point]) (\<lambda>e.
     bindM (Clone e) (\<lambda>p.
     bindM (if ToBoolean mirrorX then negate_prop rt p ''x'' else ret ()) (\<lambda>_.
     bindM (if ToBoolean mirrorY then negate_prop rt p ''y'' else ret ()) (\<lambda>_.
     ret p))))"

text \<open>
  \<open>Rotate(point, angleInDegrees, rotationOrigin)\<close>; \<open>Add\<close> is called with two arguments.
\<close>

definition Rotate :: "host \<Rightarrow> jsval \<Rightarrow> jsval \<Rightarrow> jsval \<Rightarrow> jsval js" where
  "Rotate rt point angleInDegrees rotationOrigin =
     bindM (lift (\<lambda>h. FromPointToRadians rt h point rotationOrigin)) (\<lambda>pointAngleInRadians.
     bindM (lift (\<lambda>h. PointDistance rt h rotationOrigin point)) (\<lambda>d.
     bindM (lift (\<lambda>h. ToRadians rt h angleInDegrees)) (\<lambda>r.
     bindM (lift (\<lambda>h. js_plus rt h pointAngleInRadians r)) (\<lambda>angle.
     bindM (FromPolar rt angle d) (\<lambda>rotatedPoint.
     Add rt rotationOrigin rotatedPoint Undefined)))))"

text \<open>
  \<open>Scale(point, scale)\<close>:
  \<open>var p = Clone(Ensure(point)); p.x *= scale; p.y *= scale; return p\<close>.
\<close>

definition Scale :: "host \<Rightarrow> jsval \<Rightarrow> jsval \<Rightarrow> jsval js" where
  "Scale rt point scale =
     bindM (Ensure [point]) (\<lambda>e.
     bindM (Clone e) (\<lambda>p.
     bindM (compound_assign (js_times rt) p ''x'' (ret scale)) (\<lambda>_.
     bindM (compound_assign (js_times rt) p ''y'' (ret scale)) (\<lambda>_.
     ret p))))"

text \<open>\<open>Subtract(a, b)\<close>: \<open>return Add(a, b, true)\<close>.\<close>

definition Subtract :: "host \<Rightarrow> jsval \<Rightarrow> jsval \<Rightarrow> jsval js" where
  "Subtract rt a b = Add rt a b (Bool True)"

section \<open>Notions used in the properties\<close>

text \<open>
  \<open>frame h h'\<close>: the heap \<open>h'\<close> is \<open>h\<close> followed by newly allocated objects; every object
  of \<open>h\<close> is still there, at its reference, with all its properties unchanged.
\<close>

definition frame :: "heap \<Rightarrow> heap \<Rightarrow> bool" where
  "frame h h' = (length h \<le> length h' \<and> take (length h) h' = h)"

text \<open>
  A well-formed Point with coordinates \<open>cx\<close> and \<open>cy\<close>: a reference to an object of the heap
  whose \<open>x\<close> and \<open>y\<close> are these finite numbers.
\<close>

fun point_at :: "heap \<Rightarrow> jsval \<Rightarrow> real \<Rightarrow> real \<Rightarrow> bool" where
  "point_at h (Ref a) cx cy =
     (a < length h \<and> own_prop h a ''x'' = Num (Fin cx) \<and> own_prop h a ''y'' = Num (Fin cy))"
| "point_at h v cx cy = False"

text \<open>
  A numeric sequence that starts with \<open>cx\<close>, \<open>cy\<close>: an array of at least two elements (one
  that does not itself carry numeric \<open>x\<close> and \<open>y\<close> properties) whose first two elements are
  these finite numbers.
\<close>

definition pair_at :: "heap \<Rightarrow> jsval \<Rightarrow> real \<Rightarrow> real \<Rightarrow> bool" where
  "pair_at h v cx cy =
     (isArray h v \<and> \<not> IsPoint h v \<and> 1 < arrayLength h v \<and>
      getIndex h v 0 = Num (Fin cx) \<and> getIndex h v 1 = Num (Fin cy))"

text \<open>
  The well-formed inputs of a coercing operation: a Point, a numeric sequence, or an
  absent or falsy value, which stands for the origin.
\<close>

definition point_like :: "heap \<Rightarrow> jsval \<Rightarrow> real \<Rightarrow> real \<Rightarrow> bool" where
  "point_like h v cx cy =
     (point_at h v cx cy \<or> pair_at h v cx cy \<or> (\<not> ToBoolean v \<and> cx = 0 \<and> cy = 0))"

text \<open>
  A Point whose \<open>x\<close> and \<open>y\<close> are the numbers \<open>nx\<close> and \<open>ny\<close>, finite or not.
\<close>

fun num_point_at :: "heap \<Rightarrow> jsval \<Rightarrow> number \<Rightarrow> number \<Rightarrow> bool" where
  "num_point_at h (Ref a) nx ny =
     (a < length h \<and> own_prop h a ''x'' = Num nx \<and> own_prop h a ''y'' = Num ny)"
| "num_point_at h v nx ny = False"

text \<open>
  An input that \<open>Ensure\<close> coerces to the coordinates \<open>nx\<close>, \<open>ny\<close>: a Point holding them, an
  array starting with them, or an absent or falsy value for the origin.
\<close>

definition coerces_to :: "heap \<Rightarrow> jsval \<Rightarrow> number \<Rightarrow> number \<Rightarrow> bool" where
  "coerces_to h v nx ny =
     (num_point_at h v nx ny \<or>
      (isArray h v \<and> \<not> IsPoint h v \<and> 1 < arrayLength h v \<and>
       getIndex h v 0 = Num nx \<and> getIndex h v 1 = Num ny) \<or>
      (\<not> ToBoolean v \<and> nx = Fin 0 \<and> ny = Fin 0))"

text \<open>
  The values on which arithmetic cannot raise: \<open>undefined\<close>, \<open>null\<close>, booleans, numbers
  and strings. An object may fail to convert to a primitive, and a Symbol does not
  convert to a number or a string.
\<close>

fun plain :: "jsval \<Rightarrow> bool" where
  "plain (Symbol s) = False"
| "plain (Ref a) = False"
| "plain v = True"

text \<open>
  An item whose coercion by \<open>Ensure\<close>, called with this one argument, has plain
  coordinates: any value other than an array of at least two elements (one that is not
  Point-shaped) whose first or second element is not plain. A reference is one of the heap.
\<close>

definition plain_item :: "heap \<Rightarrow> jsval \<Rightarrow> bool" where
  "plain_item h v =
     (case v of
        Ref a \<Rightarrow>
          a < length h \<and>
          (IsPoint h v \<or> \<not> (isArray h v \<and> 1 < arrayLength h v) \<or>
           (plain (getIndex h v 0) \<and> plain (getIndex h v 1)))
      | _ \<Rightarrow> True)"

text \<open>What reading the property \<open>k\<close> of \<open>v\<close> gives, for \<open>v\<close> other than \<open>undefined\<close> and \<open>null\<close>.\<close>

definition read_prop :: "heap \<Rightarrow> jsval \<Rightarrow> string \<Rightarrow> jsval" where
  "read_prop h v k = (case v of Ref a \<Rightarrow> own_prop h a k | _ \<Rightarrow> Undefined)"

definition valid_ref :: "heap \<Rightarrow> jsval \<Rightarrow> bool" where
  "valid_ref h v = (case v of Ref a \<Rightarrow> a < length h | _ \<Rightarrow> True)"

text \<open>A utility returns, and what it returns is plain.\<close>

definition returns_plain :: "error + jsval \<Rightarrow> bool" where
  "returns_plain r = (case r of Inl e \<Rightarrow> False | Inr v \<Rightarrow> plain v)"

text \<open>The call returns (it does not raise), and its result is a reference to an object.\<close>

definition returns_ref :: "error + (jsval \<times> heap) \<Rightarrow> bool" where
  "returns_ref r =
     (case r of Inr (Ref n, h') \<Rightarrow> n < length h' | _ \<Rightarrow> False)"

text \<open>
  The call, started in \<open>h\<close>, returns a reference to an object that it has allocated itself:
  the object is not one of \<open>h\<close>, the reference differs from every value in \<open>inputs\<close>, and
  no object of \<open>h\<close> has been changed.
\<close>

definition fresh_result :: "heap \<Rightarrow> jsval list \<Rightarrow> error + (jsval \<times> heap) \<Rightarrow> bool" where
  "fresh_result h inputs r =
     (case r of
        Inr (Ref n, h') \<Rightarrow> length h \<le> n \<and> n < length h' \<and> frame h h' \<and> Ref n \<notin> set inputs
      | _ \<Rightarrow> False)"

text \<open>The call returns a well-formed Point with coordinates \<open>cx\<close>, \<open>cy\<close>.\<close>

definition returns_point :: "error + (jsval \<times> heap) \<Rightarrow> real \<Rightarrow> real \<Rightarrow> bool" where
  "returns_point r cx cy =
     (case r of Inr (v, h') \<Rightarrow> point_at h' v cx cy | Inl e \<Rightarrow> False)"

text \<open>The same, for a Point that the call has allocated itself, leaving \<open>h\<close> unchanged.\<close>

definition new_point :: "heap \<Rightarrow> error + (jsval \<times> heap) \<Rightarrow> real \<Rightarrow> real \<Rightarrow> bool" where
  "new_point h r cx cy = (fresh_result h [] r \<and> returns_point r cx cy)"

text \<open>The call returns a Point whose \<open>x\<close> and \<open>y\<close> are the numbers \<open>nx\<close> and \<open>ny\<close>.\<close>

definition returns_numbers :: "error + (jsval \<times> heap) \<Rightarrow> number \<Rightarrow> number \<Rightarrow> bool" where
  "returns_numbers r nx ny =
     (case r of Inr (v, h') \<Rightarrow> num_point_at h' v nx ny | Inl e \<Rightarrow> False)"

text \<open>The same, for a Point that the call has allocated itself, leaving \<open>h\<close> unchanged.\<close>

definition new_num_point ::
  "heap \<Rightarrow> error + (jsval \<times> heap) \<Rightarrow> number \<Rightarrow> number \<Rightarrow> bool" where
  "new_num_point h r nx ny = (fresh_result h [] r \<and> returns_numbers r nx ny)"

text \<open>
  The call returns a new array of exactly two Points, with the given numbers as
  coordinates, in this order.
\<close>

definition returns_points ::
  "heap \<Rightarrow> error + (jsval \<times> heap) \<Rightarrow> number \<times> number \<Rightarrow> number \<times> number \<Rightarrow> bool" where
  "returns_points h r c0 c1 =
     (case r of
        Inr (v, h') \<Rightarrow>
          fresh_result h [] r \<and>
          (case array_elems h' v of
             Some [p0, p1] \<Rightarrow>
               num_point_at h' p0 (fst c0) (snd c0) \<and> num_point_at h' p1 (fst c1) (snd c1)
           | _ \<Rightarrow> False)
      | Inl e \<Rightarrow> False)"

text \<open>
  The two compound assignments of \<open>Add\<close>, \<open>p1.x op= p2.x; p1.y op= p2.y\<close>, on the objects
  \<open>n\<close> and \<open>j\<close>: the heap they leave, or the error of the first conversion that raises.
\<close>

definition update_xy ::
  "(heap \<Rightarrow> jsval \<Rightarrow> jsval \<Rightarrow> error + jsval) \<Rightarrow> nat \<Rightarrow> nat \<Rightarrow> heap \<Rightarrow> error + heap" where
  "update_xy opr n j h =
     bindE (opr h (own_prop h n ''x'') (own_prop h j ''x'')) (\<lambda>r1.
     bindE (opr (store_prop n ''x'' r1 h)
              (own_prop (store_prop n ''x'' r1 h) n ''y'')
              (own_prop (store_prop n ''x'' r1 h) j ''y'')) (\<lambda>r2.
     Inr (store_prop n ''y'' r2 (store_prop n ''x'' r1 h))))"

text \<open>A finite number that arithmetic reproduces exactly: a double.\<close>

definition exact64 :: "real \<Rightarrow> bool" where
  "exact64 x = (round64 x = Fin x)"

text \<open>
  The specification's third rule of \<open>Ensure\<close> speaks of "an ordered sequence of at least
  two numbers".
\<close>

definition number_seq :: "heap \<Rightarrow> jsval \<Rightarrow> bool" where
  "number_seq h v =
     (case array_elems h v of None \<Rightarrow> False | Some es \<Rightarrow> 2 \<le> length es \<and> list_all is_number es)"

text \<open>
  The specification's end point of an arc at one angle:
  \<open>Add(origin, FromPolar(ToRadians(angle), radius))\<close>.
\<close>

definition arc_point :: "host \<Rightarrow> jsval \<Rightarrow> jsval \<Rightarrow> jsval \<Rightarrow> jsval js" where
  "arc_point rt origin radius angle =
     bindM (lift (\<lambda>h. ToRadians rt h angle)) (\<lambda>radians.
     bindM (FromPolar rt radians radius) (\<lambda>polar.
     Add rt origin polar Undefined))"

text \<open>A quarter of a turn in radians, as a double.\<close>

definition quarter_turn :: real where
  "quarter_turn = nearest_double (pi / 2)"

text \<open>
  An instance of the parameters, for the examples. Its conversions take every string as
  not a number and every object as the string of an ordinary object; its cosine and sine
  are correctly rounded. Its utilities are right at the points the examples use, the
  point \<open>(1, 0)\<close> about the origin \<open>(0, 0)\<close>: the angle is 0 and the distance is 1.
\<close>

definition example_host :: host where
  "example_host =
     \<lparr>StringToNumber = (\<lambda>s. NaN),
      NumberToString = (\<lambda>n. ''NaN''),
      ObjectToPrimitive = (\<lambda>hnt h a. Inr (Str ''[object Object]'')),
      MathCos = (\<lambda>x. round64 (cos x)),
      MathSin = (\<lambda>x. round64 (sin x)),
      ToRadians = (\<lambda>h v. case v of Num (Fin d) \<Rightarrow> Inr (Num (Fin (nearest_double (d * pi / 180))))
                              | _ \<Rightarrow> Inr (Num NaN)),
      FromPointToRadians = (\<lambda>h p q. Inr (Num (Fin 0))),
      PointDistance = (\<lambda>h p q. Inr (Num (Fin 1)))\<rparr>"

text \<open>
  A heap for the examples: the Point \<open>(1, 0)\<close>, the Point \<open>(0, 0)\<close>, the array \<open>[3, 4]\<close> and
  an arc about the second Point, of radius 5, from 0 to 90 degrees.
\<close>

definition example_heap :: heap where
  "example_heap =
     [point_obj (Num (Fin 1)) (Num (Fin 0)),
      point_obj (Num (Fin 0)) (Num (Fin 0)),
      array_obj [Num (Fin 3), Num (Fin 4)],
      \<lparr>props = [(''origin'', Ref 1), (''radius'', Num (Fin 5)),
                (''startAngle'', Num (Fin 0)), (''endAngle'', Num (Fin 90))],
       elems = None\<rparr>]"

text \<open>
  A heap with coordinates at the edge of the range of doubles: with \<open>huge = 2^1023\<close>, a
  double, the Points \<open>(huge, 0)\<close> and \<open>(-huge, 0)\<close> and the array \<open>[huge, 1]\<close>.
\<close>

definition huge :: real where
  "huge = 2 ^ 1023"

definition overflow_heap :: heap where
  "overflow_heap =
     [point_obj (Num (Fin huge)) (Num (Fin 0)),
      point_obj (Num (Fin (- huge))) (Num (Fin 0)),
      array_obj [Num (Fin huge), Num (Fin 1)]]"


text \<open>
  Two Points whose difference is not a double: \<open>(1, 0)\<close> and \<open>(-2^53, 0)\<close>. The exact
  difference of the abscissas, \<open>2^53 + 1\<close>, lies halfway between the doubles \<open>2^53\<close> and
  \<open>2^53 + 2\<close>.
\<close>

definition two_53 :: real where
  "two_53 = 2 ^ 53"

definition rounding_heap :: heap where
  "rounding_heap =
     [point_obj (Num (Fin 1)) (Num (Fin 0)),
      point_obj (Num (Fin (- two_53))) (Num (Fin 0))]"


section \<open>Auxiliary lemmas\<close>

lemmas monad_defs = ret_def throw_def bindM_def reads_def lift_def alloc_def

lemma frame_refl: "frame h h"
  by (simp add: frame_def)

lemma frame_append: "frame h (h @ hs)"
  by (simp add: frame_def)

lemma frame_trans: "frame h h1 \<Longrightarrow> frame h1 h2 \<Longrightarrow> frame h h2"
  unfolding frame_def
proof (intro conjI)
  assume a: "length h \<le> length h1 \<and> take (length h) h1 = h"
    and b: "length h1 \<le> length h2 \<and> take (length h1) h2 = h1"
  from a b show "length h \<le> length h2" by simp
  from a have "take (length h) (take (length h1) h2) = take (length h) h2"
    by (simp add: min_def)
  with a b show "take (length h) h2 = h" by simp
qed

lemma frame_length: "frame h h' \<Longrightarrow> length h \<le> length h'"
  by (simp add: frame_def)

lemma frame_nth: "frame h h' \<Longrightarrow> a < length h \<Longrightarrow> h' ! a = h ! a"
proof -
  assume "frame h h'" and "a < length h"
  then have "(take (length h) h') ! a = h' ! a" by simp
  with \<open>frame h h'\<close> show ?thesis by (simp add: frame_def)
qed

lemma frame_store: "frame h h' \<Longrightarrow> length h \<le> n \<Longrightarrow> frame h (store_prop n k w h')"
  by (simp add: frame_def store_prop_def)

lemma length_store_prop: "length (store_prop n k w h) = length h"
  by (simp add: store_prop_def)

lemma heap_lookup_frame: "frame h h' \<Longrightarrow> a < length h \<Longrightarrow> heap_lookup h' a = heap_lookup h a"
  by (simp add: heap_lookup_def frame_nth) (simp add: frame_def)

lemma own_prop_frame: "frame h h' \<Longrightarrow> a < length h \<Longrightarrow> own_prop h' a k = own_prop h a k"
  by (simp add: own_prop_def heap_lookup_frame)

lemma IsPoint_Ref: "IsPoint h v \<Longrightarrow> \<exists>a. v = Ref a \<and> a < length h"
  by (cases v) (auto simp: heap_lookup_def split: if_splits)

lemma IsPoint_frame: "frame h h' \<Longrightarrow> IsPoint h v \<Longrightarrow> IsPoint h' v"
proof (cases v)
  case (Ref a)
  assume f: "frame h h'" and p: "IsPoint h v"
  from p Ref have "a < length h" by (auto simp: heap_lookup_def split: if_splits)
  with f have "heap_lookup h' a = heap_lookup h a" by (rule heap_lookup_frame)
  with p Ref show ?thesis by simp
qed simp_all

lemma own_prop_store_other: "k \<noteq> k' \<Longrightarrow> own_prop (store_prop n k w h) j k' = own_prop h j k'"
  by (simp add: own_prop_def store_prop_def heap_lookup_def update_conv' nth_list_update)

lemma own_prop_store_same: "n < length h \<Longrightarrow> own_prop (store_prop n k w h) n k = w"
  by (simp add: own_prop_def store_prop_def heap_lookup_def update_conv')

lemma own_prop_last_x: "own_prop (h @ [point_obj vx vy]) (length h) ''x'' = vx"
  by (simp add: own_prop_def heap_lookup_def point_obj_def)

lemma own_prop_last_y: "own_prop (h @ [point_obj vx vy]) (length h) ''y'' = vy"
  by (simp add: own_prop_def heap_lookup_def point_obj_def)

lemma store_x: "store_prop (length h) ''x'' w (h @ [point_obj vx vy]) = h @ [point_obj w vy]"
  by (simp add: store_prop_def point_obj_def)

lemma store_y: "store_prop (length h) ''y'' w (h @ [point_obj vx vy]) = h @ [point_obj vx w]"
  by (simp add: store_prop_def point_obj_def)

lemma getProp_Ref: "getProp (Ref j) k h = Inr (own_prop h j k, h)"
  by (simp add: reads_def)

lemma bindE_Inr: "bindE (Inr v) f = f v"
  by (simp add: bindE_def)


lemma compound_assign_getProp:
  "compound_assign opr (Ref n) k (getProp (Ref j) k') h =
     bindE (opr h (own_prop h n k) (own_prop h j k')) (\<lambda>r. Inr ((), store_prop n k r h))"
  by (simp add: compound_assign_def monad_defs bindE_def split: sum.splits)

lemma compound_assign_ret:
  "compound_assign opr (Ref n) k (ret v) h =
     bindE (opr h (own_prop h n k) v) (\<lambda>r. Inr ((), store_prop n k r h))"
  by (simp add: compound_assign_def monad_defs bindE_def split: sum.splits)

lemma negate_prop_Ref:
  "negate_prop rt (Ref n) k h =
     bindE (js_neg rt h (own_prop h n k)) (\<lambda>r. Inr ((), store_prop n k r h))"
  by (simp add: negate_prop_def monad_defs bindE_def split: sum.splits)

lemma ToNumeric_Num: "ToNumeric rt h (Num a) = Inr a"
  by (simp add: ToNumeric_def bindE_def)

lemma js_plus_Num: "js_plus rt h (Num a) (Num b) = Inr (Num (num_add a b))"
  by (simp add: js_plus_def bindE_def)

lemma js_minus_Num: "js_minus rt h (Num a) (Num b) = Inr (Num (num_sub a b))"
  by (simp add: js_minus_def ToNumeric_Num bindE_def)

lemma js_times_Num: "js_times rt h (Num a) (Num b) = Inr (Num (num_mul a b))"
  by (simp add: js_times_def ToNumeric_Num bindE_def)

lemma js_neg_Num: "js_neg rt h (Num a) = Inr (Num (num_neg a))"
  by (simp add: js_neg_def ToNumeric_Num bindE_def)

lemma Math_cos_Num: "Math_cos rt h (Num a) = Inr (Num (num_cos rt a))"
  by (simp add: Math_cos_def ToNumeric_Num bindE_def)

lemma Math_sin_Num: "Math_sin rt h (Num a) = Inr (Num (num_sin rt a))"
  by (simp add: Math_sin_def ToNumeric_Num bindE_def)

lemma ToPrimitive_plain: "plain v \<Longrightarrow> ToPrimitive rt hnt h v = Inr v"
  by (cases v) simp_all

lemma ToNumber_plain: "plain v \<Longrightarrow> \<exists>n. ToNumber rt v = Inr n"
  by (cases v) simp_all

lemma ToString_plain: "plain v \<Longrightarrow> \<exists>s. ToString rt v = Inr s"
  by (cases v) simp_all

lemma ToNumeric_plain: "plain v \<Longrightarrow> \<exists>n. ToNumeric rt h v = Inr n"
  using ToNumber_plain [of v rt] by (auto simp: ToNumeric_def ToPrimitive_plain bindE_def)

lemma js_minus_plain: "plain a \<Longrightarrow> plain b \<Longrightarrow> \<exists>n. js_minus rt h a b = Inr (Num n)"
  using ToNumeric_plain [of a rt h] ToNumeric_plain [of b rt h]
  by (auto simp: js_minus_def bindE_def)

lemma js_times_plain: "plain a \<Longrightarrow> plain b \<Longrightarrow> \<exists>n. js_times rt h a b = Inr (Num n)"
  using ToNumeric_plain [of a rt h] ToNumeric_plain [of b rt h]
  by (auto simp: js_times_def bindE_def)

lemma js_neg_plain: "plain a \<Longrightarrow> \<exists>n. js_neg rt h a = Inr (Num n)"
  using ToNumeric_plain [of a rt h] by (auto simp: js_neg_def bindE_def)

lemma Math_cos_plain: "plain a \<Longrightarrow> \<exists>n. Math_cos rt h a = Inr (Num n)"
  using ToNumeric_plain [of a rt h] by (auto simp: Math_cos_def bindE_def)

lemma Math_sin_plain: "plain a \<Longrightarrow> \<exists>n. Math_sin rt h a = Inr (Num n)"
  using ToNumeric_plain [of a rt h] by (auto simp: Math_sin_def bindE_def)

lemma js_plus_plain: "plain a \<Longrightarrow> plain b \<Longrightarrow> \<exists>v. js_plus rt h a b = Inr v \<and> plain v"
  using ToNumber_plain [of a rt] ToNumber_plain [of b rt]
    ToString_plain [of a rt] ToString_plain [of b rt]
  by (auto simp: js_plus_def ToPrimitive_plain bindE_def)

lemma Ensure_point: "IsPoint h item \<Longrightarrow> Ensure (item # rest) h = Inr (item, h)"
  by (cases item) (simp_all add: Ensure_def argument_def Let_def ret_def)

lemma Ensure_falsy:
  "\<not> ToBoolean item \<Longrightarrow>
   Ensure (item # rest) h = Inr (Ref (length h), h @ [point_obj (Num (Fin 0)) (Num (Fin 0))])"
  by (simp add: Ensure_def argument_def Let_def Zero_def alloc_def)

lemma Ensure_array:
  "ToBoolean item \<Longrightarrow> \<not> IsPoint h item \<Longrightarrow> isArray h item \<Longrightarrow> 1 < arrayLength h item \<Longrightarrow>
   Ensure (item # rest) h =
     Inr (Ref (length h), h @ [point_obj (getIndex h item 0) (getIndex h item 1)])"
  by (simp add: Ensure_def argument_def Let_def alloc_def)

lemma Ensure_cases:
  "(IsPoint h (argument args 0) \<and> Ensure args h = Inr (argument args 0, h)) \<or>
   (\<exists>vx vy. Ensure args h = Inr (Ref (length h), h @ [point_obj vx vy]))"
  by (auto simp: Ensure_def Let_def Zero_def alloc_def ret_def dest: IsPoint_Ref)

lemma Ensure_Ref:
  "\<exists>i h1. Ensure args h = Inr (Ref i, h1) \<and> frame h h1 \<and> i < length h1"
  using Ensure_cases [of h args]
proof (elim disjE conjE exE)
  assume p: "IsPoint h (argument args 0)" and e: "Ensure args h = Inr (argument args 0, h)"
  from p obtain a where a: "argument args 0 = Ref a" "a < length h" using IsPoint_Ref by blast
  with e show ?thesis using frame_refl by auto
next
  fix vx vy
  assume e: "Ensure args h = Inr (Ref (length h), h @ [point_obj vx vy])"
  have "length h < length (h @ [point_obj vx vy])" by simp
  with e show ?thesis using frame_append by blast
qed

lemma Clone_Ref: "Clone (Ref a) h = Inr (Ref (length h), h @ [point_obj (own_prop h a ''x'') (own_prop h a ''y'')])"
  by (simp add: Clone_def monad_defs)

lemma point_at_Ref: "point_at h v cx cy \<Longrightarrow> \<exists>a. v = Ref a \<and> a < length h"
  by (cases v) simp_all

lemma point_at_IsPoint: "point_at h v cx cy \<Longrightarrow> IsPoint h v"
  by (cases v) (auto simp: own_prop_def heap_lookup_def split: option.splits)

lemma point_at_frame: "frame h h' \<Longrightarrow> point_at h v cx cy \<Longrightarrow> point_at h' v cx cy"
proof (cases v)
  case (Ref a)
  assume f: "frame h h'" and p: "point_at h v cx cy"
  from p Ref have a: "a < length h" by simp
  with f have "own_prop h' a ''x'' = own_prop h a ''x''" "own_prop h' a ''y'' = own_prop h a ''y''"
    by (simp_all add: own_prop_frame)
  moreover from f a have "a < length h'" by (simp add: frame_def)
  ultimately show ?thesis using p Ref by simp
qed simp_all

lemma isArray_Ref: "isArray h v \<Longrightarrow> \<exists>a. v = Ref a \<and> a < length h"
  by (cases v) (auto simp: isArray_def array_elems_def heap_lookup_def split: if_splits)

lemma pair_at_frame: "frame h h' \<Longrightarrow> pair_at h v cx cy \<Longrightarrow> pair_at h' v cx cy"
proof -
  assume f: "frame h h'" and p: "pair_at h v cx cy"
  from p obtain a where a: "v = Ref a" "a < length h"
    using isArray_Ref by (auto simp: pair_at_def)
  with f have l: "heap_lookup h' a = heap_lookup h a" by (simp add: heap_lookup_frame)
  then have "array_elems h' v = array_elems h v" "IsPoint h' v = IsPoint h v"
    using a by (simp_all add: array_elems_def)
  with p show ?thesis
    by (simp add: pair_at_def isArray_def arrayLength_def getIndex_def)
qed

lemma point_like_frame: "frame h h' \<Longrightarrow> point_like h v cx cy \<Longrightarrow> point_like h' v cx cy"
  unfolding point_like_def using point_at_frame pair_at_frame by blast

lemma point_at_num: "point_at h v cx cy = num_point_at h v (Fin cx) (Fin cy)"
  by (cases v) simp_all

lemma num_point_at_Ref: "num_point_at h v nx ny \<Longrightarrow> \<exists>a. v = Ref a \<and> a < length h"
  by (cases v) simp_all

lemma num_point_at_IsPoint: "num_point_at h v nx ny \<Longrightarrow> IsPoint h v"
  by (cases v) (auto simp: own_prop_def heap_lookup_def split: option.splits)

lemma num_point_at_frame: "frame h h' \<Longrightarrow> num_point_at h v nx ny \<Longrightarrow> num_point_at h' v nx ny"
proof (cases v)
  case (Ref a)
  assume f: "frame h h'" and p: "num_point_at h v nx ny"
  from p Ref have a: "a < length h" by simp
  with f have "own_prop h' a ''x'' = own_prop h a ''x''" "own_prop h' a ''y'' = own_prop h a ''y''"
    by (simp_all add: own_prop_frame)
  moreover from f a have "a < length h'" by (simp add: frame_def)
  ultimately show ?thesis using p Ref by simp
qed simp_all

lemma array_frame:
  assumes f: "frame h h'" and a: "isArray h v"
  shows "array_elems h' v = array_elems h v" and "IsPoint h' v = IsPoint h v"
proof -
  from a obtain a where a: "v = Ref a" "a < length h" using isArray_Ref by blast
  with f have l: "heap_lookup h' a = heap_lookup h a" by (simp add: heap_lookup_frame)
  then show "array_elems h' v = array_elems h v" "IsPoint h' v = IsPoint h v"
    using a by (simp_all add: array_elems_def)
qed

lemma coerces_to_frame: "frame h h' \<Longrightarrow> coerces_to h v nx ny \<Longrightarrow> coerces_to h' v nx ny"
proof -
  assume f: "frame h h'" and c: "coerces_to h v nx ny"
  from c consider "num_point_at h v nx ny"
    | "isArray h v" "\<not> IsPoint h v" "1 < arrayLength h v"
      "getIndex h v 0 = Num nx" "getIndex h v 1 = Num ny"
    | "\<not> ToBoolean v" "nx = Fin 0" "ny = Fin 0"
    by (auto simp: coerces_to_def)
  then show ?thesis
  proof cases
    case 1
    with f have "num_point_at h' v nx ny" by (rule num_point_at_frame)
    then show ?thesis by (simp add: coerces_to_def)
  next
    case 2
    from f 2(1) have "array_elems h' v = array_elems h v" "IsPoint h' v = IsPoint h v"
      by (rule array_frame)+
    with 2 show ?thesis by (simp add: coerces_to_def isArray_def arrayLength_def getIndex_def)
  next
    case 3
    then show ?thesis by (simp add: coerces_to_def)
  qed
qed

lemma point_like_coerces: "point_like h v cx cy \<Longrightarrow> coerces_to h v (Fin cx) (Fin cy)"
  by (auto simp: point_like_def coerces_to_def pair_at_def point_at_num)

lemma num_point_last: "num_point_at (h @ [point_obj (Num nx) (Num ny)]) (Ref (length h)) nx ny"
  by (simp add: own_prop_last_x own_prop_last_y)

lemma Ensure_coerces:
  assumes "coerces_to h v nx ny"
  shows "\<exists>i h1. Ensure (v # rest) h = Inr (Ref i, h1) \<and> frame h h1 \<and> num_point_at h1 (Ref i) nx ny"
proof -
  from assms consider "num_point_at h v nx ny"
    | "isArray h v" "\<not> IsPoint h v" "1 < arrayLength h v"
      "getIndex h v 0 = Num nx" "getIndex h v 1 = Num ny"
    | "\<not> ToBoolean v" "nx = Fin 0" "ny = Fin 0"
    by (auto simp: coerces_to_def)
  then show ?thesis
  proof cases
    case 1
    then obtain a where "v = Ref a" using num_point_at_Ref by blast
    moreover from 1 have "Ensure (v # rest) h = Inr (v, h)"
      by (simp add: num_point_at_IsPoint Ensure_point)
    ultimately show ?thesis using 1 frame_refl by blast
  next
    case 2
    then obtain a where "v = Ref a" using isArray_Ref by blast
    then have "ToBoolean v" by simp
    with 2 have "Ensure (v # rest) h = Inr (Ref (length h), h @ [point_obj (Num nx) (Num ny)])"
      using Ensure_array [of v h rest] by simp
    then show ?thesis using num_point_last frame_append by blast
  next
    case 3
    then have "Ensure (v # rest) h = Inr (Ref (length h), h @ [point_obj (Num nx) (Num ny)])"
      by (simp add: Ensure_falsy)
    then show ?thesis using num_point_last frame_append by blast
  qed
qed

lemma Clone_num_point:
  "num_point_at h p nx ny \<Longrightarrow>
   Clone p h = Inr (Ref (length h), h @ [point_obj (Num nx) (Num ny)])"
  by (cases p) (simp_all add: Clone_Ref)

lemma new_num_pointI:
  "r = Inr (Ref n, h') \<Longrightarrow> length h \<le> n \<Longrightarrow> frame h h' \<Longrightarrow> num_point_at h' (Ref n) nx ny \<Longrightarrow>
   new_num_point h r nx ny"
  by (simp add: new_num_point_def fresh_result_def returns_numbers_def)

lemma new_num_point_last:
  "frame h h1 \<Longrightarrow>
   new_num_point h (Inr (Ref (length h1), h1 @ [point_obj (Num nx) (Num ny)])) nx ny"
proof (rule new_num_pointI [OF refl])
  assume f: "frame h h1"
  then show "length h \<le> length h1" by (rule frame_length)
  from f frame_append show "frame h (h1 @ [point_obj (Num nx) (Num ny)])"
    by (rule frame_trans)
  show "num_point_at (h1 @ [point_obj (Num nx) (Num ny)]) (Ref (length h1)) nx ny"
    by (rule num_point_last)
qed

lemma new_num_pointD:
  "new_num_point h r nx ny \<Longrightarrow>
   \<exists>n h'. r = Inr (Ref n, h') \<and> length h \<le> n \<and> n < length h' \<and> frame h h' \<and>
     num_point_at h' (Ref n) nx ny"
proof (cases r)
  case (Inl e)
  assume "new_num_point h r nx ny"
  with Inl show ?thesis by (simp add: new_num_point_def returns_numbers_def)
next
  case (Inr p)
  assume n: "new_num_point h r nx ny"
  obtain v h' where p: "p = (v, h')" by (cases p)
  from n Inr p obtain a where "v = Ref a"
    by (cases v) (simp_all add: new_num_point_def fresh_result_def)
  with n Inr p show ?thesis
    by (simp add: new_num_point_def fresh_result_def returns_numbers_def)
qed

lemma returns_point_num: "returns_point r cx cy = returns_numbers r (Fin cx) (Fin cy)"
  by (simp add: returns_point_def returns_numbers_def point_at_num split: sum.splits)

lemma new_point_num: "new_point h r cx cy = new_num_point h r (Fin cx) (Fin cy)"
  by (simp add: new_point_def new_num_point_def returns_point_num)

lemma new_num_point_frame:
  "frame h h1 \<Longrightarrow> new_num_point h1 r nx ny \<Longrightarrow> new_num_point h r nx ny"
proof -
  assume f: "frame h h1" and n: "new_num_point h1 r nx ny"
  from n obtain k h' where r: "r = Inr (Ref k, h')" and l: "length h1 \<le> k"
    and f': "frame h1 h'" and p: "num_point_at h' (Ref k) nx ny"
    using new_num_pointD by blast
  from f have "length h \<le> length h1" by (rule frame_length)
  with l have "length h \<le> k" by simp
  moreover from f f' have "frame h h'" by (rule frame_trans)
  ultimately show ?thesis using r p by (intro new_num_pointI) simp_all
qed

lemma Clone_Ensure_value:
  assumes "coerces_to h v nx ny"
  shows "\<exists>e h1. Ensure [v] h = Inr (e, h1) \<and> frame h h1 \<and>
     Clone e h1 = Inr (Ref (length h1), h1 @ [point_obj (Num nx) (Num ny)])"
proof -
  from assms obtain i h1 where e: "Ensure [v] h = Inr (Ref i, h1)" and f: "frame h h1"
    and p: "num_point_at h1 (Ref i) nx ny"
    using Ensure_coerces by blast
  from p have "Clone (Ref i) h1 = Inr (Ref (length h1), h1 @ [point_obj (Num nx) (Num ny)])"
    by (rule Clone_num_point)
  with e f show ?thesis by blast
qed

lemma Mirror_value:
  assumes "coerces_to h v nx ny"
  shows "new_num_point h (Mirror rt v mx my h)
           (if ToBoolean mx then num_neg nx else nx) (if ToBoolean my then num_neg ny else ny)"
proof -
  from assms obtain e h1 where e: "Ensure [v] h = Inr (e, h1)" and f: "frame h h1"
    and c: "Clone e h1 = Inr (Ref (length h1), h1 @ [point_obj (Num nx) (Num ny)])"
    using Clone_Ensure_value by blast
  have "Mirror rt v mx my h = Inr (Ref (length h1), h1 @ [point_obj
          (Num (if ToBoolean mx then num_neg nx else nx))
          (Num (if ToBoolean my then num_neg ny else ny))])"
    by (simp add: Mirror_def bindM_def e c negate_prop_Ref ret_def own_prop_last_x own_prop_last_y
          store_x store_y js_neg_Num bindE_Inr)
  then show ?thesis using f by (simp only: new_num_point_last)
qed

lemma Scale_value:
  assumes "coerces_to h v nx ny"
  shows "new_num_point h (Scale rt v (Num k) h) (num_mul nx k) (num_mul ny k)"
proof -
  from assms obtain e h1 where e: "Ensure [v] h = Inr (e, h1)" and f: "frame h h1"
    and c: "Clone e h1 = Inr (Ref (length h1), h1 @ [point_obj (Num nx) (Num ny)])"
    using Clone_Ensure_value by blast
  have "Scale rt v (Num k) h = Inr (Ref (length h1), h1 @ [point_obj
          (Num (num_mul nx k)) (Num (num_mul ny k))])"
    by (simp add: Scale_def bindM_def e c compound_assign_ret own_prop_last_x own_prop_last_y
          store_x store_y js_times_Num bindE_Inr) (simp add: ret_def)
  then show ?thesis using f by (simp only: new_num_point_last)
qed

lemma FromPolar_value:
  "FromPolar rt (Num t) (Num r) h =
     Inr (Ref (length h),
          h @ [point_obj (Num (num_mul r (num_cos rt t))) (Num (num_mul r (num_sin rt t)))])"
  by (simp add: FromPolar_def bindM_def lift_def alloc_def js_times_Num Math_cos_Num Math_sin_Num)

lemma is_number_plain: "is_number v \<Longrightarrow> plain v"
  by (cases v) simp_all

lemma IsPoint_numbers:
  "IsPoint h (Ref a) \<Longrightarrow> is_number (own_prop h a ''x'') \<and> is_number (own_prop h a ''y'')"
  by (auto simp: own_prop_def split: option.splits)

lemma Ensure_other:
  "ToBoolean v \<Longrightarrow> \<not> IsPoint h v \<Longrightarrow> \<not> (isArray h v \<and> 1 < arrayLength h v) \<Longrightarrow>
   Ensure [v] h = Inr (Ref (length h), h @ [point_obj (Num (Fin 0)) (Num (Fin 0))])"
  by (auto simp: Ensure_def argument_def Zero_def alloc_def)

lemma plain_last: "plain vx \<Longrightarrow> plain vy \<Longrightarrow>
  plain (own_prop (h @ [point_obj vx vy]) (length h) ''x'') \<and>
  plain (own_prop (h @ [point_obj vx vy]) (length h) ''y'')"
  by (simp add: own_prop_last_x own_prop_last_y)

lemma Ensure_plain:
  assumes "plain_item h v"
  shows "\<exists>i h1. Ensure [v] h = Inr (Ref i, h1) \<and> frame h h1 \<and> i < length h1 \<and>
           plain (own_prop h1 i ''x'') \<and> plain (own_prop h1 i ''y'')"
proof -
  have new: "\<exists>i h1. Ensure [v] h = Inr (Ref i, h1) \<and> frame h h1 \<and> i < length h1 \<and>
           plain (own_prop h1 i ''x'') \<and> plain (own_prop h1 i ''y'')"
    if e: "Ensure [v] h = Inr (Ref (length h), h @ [point_obj vx vy])"
      and p: "plain vx" "plain vy" for vx vy
  proof -
    have "length h < length (h @ [point_obj vx vy])" by simp
    with e plain_last [OF p, of h] frame_append [of h "[point_obj vx vy]"] show ?thesis by blast
  qed
  show ?thesis
  proof (cases "ToBoolean v")
    case False
    then have "Ensure [v] h = Inr (Ref (length h), h @ [point_obj (Num (Fin 0)) (Num (Fin 0))])"
      by (rule Ensure_falsy)
    then show ?thesis by (rule new) simp_all
  next
    case t: True
    show ?thesis
    proof (cases "IsPoint h v")
      case True
      then obtain a where a: "v = Ref a" "a < length h" using IsPoint_Ref by blast
      from True have e: "Ensure [v] h = Inr (v, h)" by (rule Ensure_point)
      from True a have "plain (own_prop h a ''x'')" "plain (own_prop h a ''y'')"
        using IsPoint_numbers [of h a] by (simp_all add: is_number_plain)
      with e a show ?thesis using frame_refl by blast
    next
      case p: False
      show ?thesis
      proof (cases "isArray h v \<and> 1 < arrayLength h v")
        case True
        then obtain a where a: "v = Ref a" using isArray_Ref by blast
        from True t p have e: "Ensure [v] h =
            Inr (Ref (length h), h @ [point_obj (getIndex h v 0) (getIndex h v 1)])"
          by (simp add: Ensure_array)
        from assms a p True have "plain (getIndex h v 0)" "plain (getIndex h v 1)"
          by (simp_all add: plain_item_def)
        with e show ?thesis by (rule new)
      next
        case False
        with t p have
          "Ensure [v] h = Inr (Ref (length h), h @ [point_obj (Num (Fin 0)) (Num (Fin 0))])"
          by (rule Ensure_other)
        then show ?thesis by (rule new) simp_all
      qed
    qed
  qed
qed

lemma plain_item_frame: "frame h h' \<Longrightarrow> plain_item h v \<Longrightarrow> plain_item h' v"
proof (cases v)
  case (Ref a)
  assume f: "frame h h'" and p: "plain_item h v"
  from p Ref have a: "a < length h" by (simp add: plain_item_def)
  with f have l: "heap_lookup h' a = heap_lookup h a" by (simp add: heap_lookup_frame)
  then have "array_elems h' v = array_elems h v" "IsPoint h' v = IsPoint h v"
    using Ref by (simp_all add: array_elems_def)
  moreover from f a have "a < length h'" by (simp add: frame_def)
  ultimately show ?thesis using p Ref
    by (simp add: plain_item_def isArray_def arrayLength_def getIndex_def)
qed (simp_all add: plain_item_def)

lemma num_point_plain_item: "num_point_at h v nx ny \<Longrightarrow> plain_item h v"
  using num_point_at_IsPoint [of h v nx ny] by (cases v) (simp_all add: plain_item_def)

text \<open>the two assignments of Add\<close>

lemma update_xy_frame:
  assumes "update_xy opr n j h3 = Inr h5" and "frame h h3" and "length h \<le> n"
  shows "frame h h5 \<and> length h5 = length h3"
proof -
  from assms(1) obtain r1 r2 where "h5 = store_prop n ''y'' r2 (store_prop n ''x'' r1 h3)"
    by (auto simp: update_xy_def bindE_def split: sum.splits)
  with assms(2,3) show ?thesis by (simp add: frame_store length_store_prop)
qed

lemma update_xy_value:
  assumes opr: "\<And>h a b. opr h (Num a) (Num b) = Inr (Num (f a b))"
    and n: "n < length h3"
    and "own_prop h3 n ''x'' = Num ax" and "own_prop h3 n ''y'' = Num ay"
    and "own_prop h3 j ''x'' = Num bx" and "own_prop h3 j ''y'' = Num by"
  shows "\<exists>h5. update_xy opr n j h3 = Inr h5 \<and> num_point_at h5 (Ref n) (f ax bx) (f ay by)"
  using assms
  by (simp add: update_xy_def bindE_Inr own_prop_store_other own_prop_store_same
        length_store_prop)

lemma update_xy_plain:
  assumes opr: "\<And>h a b. plain a \<Longrightarrow> plain b \<Longrightarrow> \<exists>v. opr h a b = Inr v"
    and "plain (own_prop h3 n ''x'')" and "plain (own_prop h3 n ''y'')"
    and "plain (own_prop h3 j ''x'')" and "plain (own_prop h3 j ''y'')"
  shows "\<exists>h5. update_xy opr n j h3 = Inr h5"
proof -
  from opr assms(2,4) obtain r1 where
    1: "opr h3 (own_prop h3 n ''x'') (own_prop h3 j ''x'') = Inr r1" by blast
  let ?h4 = "store_prop n ''x'' r1 h3"
  have "own_prop ?h4 n ''y'' = own_prop h3 n ''y''" "own_prop ?h4 j ''y'' = own_prop h3 j ''y''"
    by (simp_all add: own_prop_store_other)
  with opr [of "own_prop ?h4 n ''y''" "own_prop ?h4 j ''y''" ?h4] assms(3,5)
  obtain r2 where 2: "opr ?h4 (own_prop ?h4 n ''y'') (own_prop ?h4 j ''y'') = Inr r2" by auto
  show ?thesis by (simp add: update_xy_def 1 2 bindE_Inr)
qed

lemma ToBoolean_default: "ToBoolean (if s = Undefined then Bool False else s) = ToBoolean s"
  by simp

lemma Add_unfold:
  assumes "Ensure [a] h = Inr (Ref i, h1)"
    and "Ensure [b] (h1 @ [point_obj (own_prop h1 i ''x'') (own_prop h1 i ''y'')]) = Inr (Ref j, h3)"
  shows "Add rt a b s h =
     bindE (update_xy (if ToBoolean s then js_minus rt else js_plus rt) (length h1) j h3)
       (\<lambda>h5. Inr (Ref (length h1), h5))"
proof (cases "ToBoolean s")
  case True
  then have "s \<noteq> Undefined" by auto
  with True assms show ?thesis
    by (simp add: Add_def Let_def bindM_def Clone_Ref compound_assign_getProp ret_def update_xy_def
          bindE_def del: getProp.simps split: sum.splits)
next
  case False
  with assms show ?thesis
    by (simp add: Add_def Let_def bindM_def Clone_Ref compound_assign_getProp ret_def update_xy_def
          bindE_def del: getProp.simps split: sum.splits)
qed

lemma fresh_resultI:
  "r = Inr (Ref n, h') \<Longrightarrow> length h \<le> n \<Longrightarrow> n < length h' \<Longrightarrow> frame h h' \<Longrightarrow> fresh_result h [] r"
  by (simp add: fresh_result_def)

lemma fresh_resultD:
  "fresh_result h ins r \<Longrightarrow>
   \<exists>n h'. r = Inr (Ref n, h') \<and> length h \<le> n \<and> n < length h' \<and> frame h h' \<and> Ref n \<notin> set ins"
proof (cases r)
  case (Inl e)
  assume "fresh_result h ins r"
  with Inl show ?thesis by (simp add: fresh_result_def)
next
  case (Inr p)
  assume n: "fresh_result h ins r"
  obtain v h' where p: "p = (v, h')" by (cases p)
  from n Inr p obtain a where "v = Ref a"
    by (cases v) (simp_all add: fresh_result_def)
  with n Inr p show ?thesis
    by (simp add: fresh_result_def)
qed

lemma fresh_result_frame: "frame h h1 \<Longrightarrow> fresh_result h1 [] r \<Longrightarrow> fresh_result h [] r"
proof -
  assume f: "frame h h1" and n: "fresh_result h1 [] r"
  from n obtain k h' where r: "r = Inr (Ref k, h')" and l: "length h1 \<le> k" and k: "k < length h'"
    and f': "frame h1 h'"
    using fresh_resultD by blast
  from f have "length h \<le> length h1" by (rule frame_length)
  with l have "length h \<le> k" by simp
  moreover from f f' have "frame h h'" by (rule frame_trans)
  ultimately show ?thesis using r k by (intro fresh_resultI) simp_all
qed

lemma fresh_last: "frame h h1 \<Longrightarrow> fresh_result h [] (Inr (Ref (length h1), h1 @ [ob]))"
proof (rule fresh_resultI [OF refl])
  assume f: "frame h h1"
  then show "length h \<le> length h1" by (rule frame_length)
  show "length h1 < length (h1 @ [ob])" by simp
  from f frame_append show "frame h (h1 @ [ob])" by (rule frame_trans)
qed



lemma Zero_fresh: "fresh_result h [] (Zero h)"
  unfolding Zero_def alloc_def using frame_refl by (rule fresh_last)

lemma getProp_ok: "p \<noteq> Undefined \<Longrightarrow> p \<noteq> Null \<Longrightarrow> \<exists>w. getProp p k h = Inr (w, h)"
  by (cases p) (simp_all add: reads_def ret_def)

lemma Clone_fresh:
  assumes "p \<noteq> Undefined" and "p \<noteq> Null"
  shows "fresh_result h [] (Clone p h)"
proof -
  from assms obtain vx where x: "getProp p ''x'' h = Inr (vx, h)" using getProp_ok by blast
  from assms obtain vy where y: "getProp p ''y'' h = Inr (vy, h)" using getProp_ok by blast
  have "Clone p h = Inr (Ref (length h), h @ [point_obj vx vy])"
    by (simp add: Clone_def bindM_def x y alloc_def)
  then show ?thesis using fresh_last [OF frame_refl] by simp
qed


lemma fresh_inputs:
  assumes "fresh_result h [] r" and "\<And>v. v \<in> set ins \<Longrightarrow> \<exists>cx cy. point_at h v cx cy"
  shows "fresh_result h ins r"
proof -
  from assms(1) obtain n h' where r: "r = Inr (Ref n, h')" and l: "length h \<le> n"
    and n: "n < length h'" and f: "frame h h'"
    using fresh_resultD by blast
  have "Ref n \<notin> set ins"
  proof
    assume "Ref n \<in> set ins"
    then obtain cx cy where "point_at h (Ref n) cx cy" using assms(2) by blast
    with l show False by simp
  qed
  with r l n f show ?thesis by (simp add: fresh_result_def)
qed

lemma not_isl_Inr: "\<not> isl r \<Longrightarrow> \<exists>v. r = Inr v"
  by (cases r) simp_all

lemma returns_ref_not_isl: "returns_ref r \<Longrightarrow> \<not> isl r"
  by (cases r) (simp_all add: returns_ref_def)

lemma new_num_point_fresh: "new_num_point h r nx ny \<Longrightarrow> fresh_result h [] r"
  by (simp add: new_num_point_def)

lemma Add_prefix:
  "\<exists>i h1 j h3. Ensure [a] h = Inr (Ref i, h1) \<and> frame h h1 \<and>
     Ensure [b] (h1 @ [point_obj (own_prop h1 i ''x'') (own_prop h1 i ''y'')]) = Inr (Ref j, h3) \<and>
     frame (h1 @ [point_obj (own_prop h1 i ''x'') (own_prop h1 i ''y'')]) h3"
proof -
  obtain i h1 where e1: "Ensure [a] h = Inr (Ref i, h1)" and f1: "frame h h1"
    using Ensure_Ref by blast
  let ?h2 = "h1 @ [point_obj (own_prop h1 i ''x'') (own_prop h1 i ''y'')]"
  obtain j h3 where e2: "Ensure [b] ?h2 = Inr (Ref j, h3)" and f2: "frame ?h2 h3"
    using Ensure_Ref by blast
  from e1 f1 e2 f2 show ?thesis by blast
qed

lemma Add_cases: "isl (Add rt a b s h) \<or> fresh_result h [] (Add rt a b s h)"
proof -
  obtain i h1 j h3 where e1: "Ensure [a] h = Inr (Ref i, h1)" and f1: "frame h h1"
    and e2: "Ensure [b] (h1 @ [point_obj (own_prop h1 i ''x'') (own_prop h1 i ''y'')]) = Inr (Ref j, h3)"
    and f2: "frame (h1 @ [point_obj (own_prop h1 i ''x'') (own_prop h1 i ''y'')]) h3"
    using Add_prefix by blast
  let ?opr = "if ToBoolean s then js_minus rt else js_plus rt"
  have add: "Add rt a b s h = bindE (update_xy ?opr (length h1) j h3)
      (\<lambda>h5. Inr (Ref (length h1), h5))"
    using e1 e2 by (rule Add_unfold)
  show ?thesis
  proof (cases "update_xy ?opr (length h1) j h3")
    case (Inl e)
    with add show ?thesis by (simp add: bindE_def)
  next
    case (Inr h5)
    have f3: "frame h h3" using f1 frame_append f2 by (blast intro: frame_trans)
    have l1: "length h \<le> length h1" using f1 by (rule frame_length)
    from Inr f3 l1 have u: "frame h h5 \<and> length h5 = length h3" by (rule update_xy_frame)
    from f2 have "length h1 < length h3" by (simp add: frame_def)
    with u l1 have "fresh_result h [] (Inr (Ref (length h1), h5))"
      by (simp add: fresh_result_def)
    with add Inr show ?thesis by (simp add: bindE_def)
  qed
qed

lemma not_isl_fresh: "\<not> isl r \<Longrightarrow> isl r \<or> fresh_result h ins r \<Longrightarrow> fresh_result h ins r"
  by blast

lemma Add_returns:
  assumes a: "plain_item h a" and b: "plain_item h b"
  shows "fresh_result h [] (Add rt a b s h)"
proof -
  from a obtain i h1 where e1: "Ensure [a] h = Inr (Ref i, h1)" and f1: "frame h h1"
    and p1: "plain (own_prop h1 i ''x'')" "plain (own_prop h1 i ''y'')"
    using Ensure_plain by blast
  let ?h2 = "h1 @ [point_obj (own_prop h1 i ''x'') (own_prop h1 i ''y'')]"
  have f2: "frame h ?h2" using f1 frame_append by (rule frame_trans)
  then have "plain_item ?h2 b" using b by (rule plain_item_frame)
  then obtain j h3 where e2: "Ensure [b] ?h2 = Inr (Ref j, h3)" and f23: "frame ?h2 h3"
    and p2: "plain (own_prop h3 j ''x'')" "plain (own_prop h3 j ''y'')"
    using Ensure_plain by blast
  let ?opr = "if ToBoolean s then js_minus rt else js_plus rt"
  have add: "Add rt a b s h = bindE (update_xy ?opr (length h1) j h3)
      (\<lambda>h5. Inr (Ref (length h1), h5))"
    using e1 e2 by (rule Add_unfold)
  have "own_prop h3 (length h1) k = own_prop ?h2 (length h1) k" for k
    using f23 by (rule own_prop_frame) simp
  with p1 have p3: "plain (own_prop h3 (length h1) ''x'')" "plain (own_prop h3 (length h1) ''y'')"
    by (simp_all add: own_prop_last_x own_prop_last_y)
  have opr: "\<exists>v. ?opr h' u w = Inr v" if "plain u" "plain w" for h' u w
    using that js_minus_plain [of u w rt h'] js_plus_plain [of u w rt h'] by auto
  from opr p3(1) p3(2) p2 have "\<exists>h5. update_xy ?opr (length h1) j h3 = Inr h5"
    by (rule update_xy_plain)
  with add have "\<not> isl (Add rt a b s h)" by (auto simp: bindE_def)
  then show ?thesis using Add_cases by (rule not_isl_fresh)
qed

lemma Add_value:
  assumes a: "coerces_to h a ax ay" and b: "coerces_to h b bx by"
  shows "new_num_point h (Add rt a b s h)
           (if ToBoolean s then num_sub ax bx else num_add ax bx)
           (if ToBoolean s then num_sub ay by else num_add ay by)"
proof -
  from a obtain i h1 where e1: "Ensure [a] h = Inr (Ref i, h1)" and f1: "frame h h1"
    and p1: "num_point_at h1 (Ref i) ax ay"
    using Ensure_coerces by blast
  let ?h2 = "h1 @ [point_obj (own_prop h1 i ''x'') (own_prop h1 i ''y'')]"
  have h2: "?h2 = h1 @ [point_obj (Num ax) (Num ay)]" using p1 by simp
  have f2: "frame h ?h2" using f1 frame_append by (rule frame_trans)
  then have "coerces_to ?h2 b bx by" using b by (rule coerces_to_frame)
  then obtain j h3 where e2: "Ensure [b] ?h2 = Inr (Ref j, h3)" and f23: "frame ?h2 h3"
    and p2: "num_point_at h3 (Ref j) bx by"
    using Ensure_coerces by blast
  let ?opr = "if ToBoolean s then js_minus rt else js_plus rt"
  let ?f = "if ToBoolean s then num_sub else num_add"
  have add: "Add rt a b s h = bindE (update_xy ?opr (length h1) j h3)
      (\<lambda>h5. Inr (Ref (length h1), h5))"
    using e1 e2 by (rule Add_unfold)
  have "num_point_at ?h2 (Ref (length h1)) ax ay" unfolding h2 by (rule num_point_last)
  with f23 have p3: "num_point_at h3 (Ref (length h1)) ax ay" by (rule num_point_at_frame)
  have opr: "?opr h' (Num u) (Num w) = Inr (Num (?f u w))" for h' u w
    by (simp add: js_minus_Num js_plus_Num)
  from p3 p2 obtain h5 where u: "update_xy ?opr (length h1) j h3 = Inr h5"
    and pt: "num_point_at h5 (Ref (length h1)) (?f ax bx) (?f ay by)"
    using update_xy_value [where opr = ?opr and f = ?f and n = "length h1" and ?h3.0 = h3
        and ax = ax and ay = ay and j = j and bx = bx and ?by = "by", OF opr]
    by auto
  have f3: "frame h h3" using f2 f23 by (rule frame_trans)
  have l1: "length h \<le> length h1" using f1 by (rule frame_length)
  from u f3 l1 have "frame h h5 \<and> length h5 = length h3" by (rule update_xy_frame)
  then have fr: "frame h h5" ..
  have r: "Add rt a b s h = Inr (Ref (length h1), h5)" using add u by (simp add: bindE_Inr)
  have "new_num_point h (Add rt a b s h) (?f ax bx) (?f ay by)"
    using r l1 fr pt by (rule new_num_pointI)
  then show ?thesis by (cases "ToBoolean s") simp_all
qed

lemma Clone_Ensure_Ref:
  "\<exists>i h1. Ensure [v] h = Inr (Ref i, h1) \<and> frame h h1 \<and>
     Clone (Ref i) h1 = Inr (Ref (length h1), h1 @ [point_obj (own_prop h1 i ''x'') (own_prop h1 i ''y'')])"
  using Ensure_Ref [of "[v]" h] by (auto simp: Clone_Ref)

lemma Mirror_cases: "isl (Mirror rt v mx my h) \<or> fresh_result h [] (Mirror rt v mx my h)"
proof -
  obtain i h1 where e: "Ensure [v] h = Inr (Ref i, h1)" and f: "frame h h1"
    using Ensure_Ref by blast
  have "isl (Mirror rt v mx my h) \<or>
      (\<exists>vx vy. Mirror rt v mx my h = Inr (Ref (length h1), h1 @ [point_obj vx vy]))"
    by (auto simp add: Mirror_def bindM_def e Clone_Ref negate_prop_Ref ret_def store_x store_y
          bindE_def split: sum.splits)
  then show ?thesis using fresh_last [OF f] by auto
qed

lemma Mirror_returns:
  assumes "plain_item h v"
  shows "fresh_result h [] (Mirror rt v mx my h)"
proof -
  from assms obtain i h1 where e: "Ensure [v] h = Inr (Ref i, h1)"
    and p: "plain (own_prop h1 i ''x'')" "plain (own_prop h1 i ''y'')"
    using Ensure_plain by blast
  from p(1) obtain nx where x: "js_neg rt hx (own_prop h1 i ''x'') = Inr (Num nx)" for hx
    using js_neg_plain [of "own_prop h1 i ''x''" rt] 
    by (auto simp: js_neg_def ToNumeric_def ToPrimitive_plain bindE_def split: sum.splits)
  from p(2) obtain ny where y: "js_neg rt hx (own_prop h1 i ''y'') = Inr (Num ny)" for hx
    using js_neg_plain [of "own_prop h1 i ''y''" rt] 
    by (auto simp: js_neg_def ToNumeric_def ToPrimitive_plain bindE_def split: sum.splits)
  have "\<not> isl (Mirror rt v mx my h)"
    by (simp add: Mirror_def bindM_def e Clone_Ref negate_prop_Ref ret_def store_x store_y
          own_prop_last_x own_prop_last_y x y bindE_Inr)
  then show ?thesis using Mirror_cases by (rule not_isl_fresh)
qed

lemma Scale_cases: "isl (Scale rt v k h) \<or> fresh_result h [] (Scale rt v k h)"
proof -
  obtain i h1 where e: "Ensure [v] h = Inr (Ref i, h1)" and f: "frame h h1"
    using Ensure_Ref by blast
  have "isl (Scale rt v k h) \<or>
      (\<exists>vx vy. Scale rt v k h = Inr (Ref (length h1), h1 @ [point_obj vx vy]))"
    by (simp add: Scale_def bindM_def e Clone_Ref compound_assign_ret store_x store_y
          bindE_def split: sum.splits) (auto simp add: ret_def)
  then show ?thesis using fresh_last [OF f] by auto
qed

lemma ToNumeric_plain_all: "plain v \<Longrightarrow> \<exists>n. \<forall>h. ToNumeric rt h v = Inr n"
  using ToNumber_plain [of v rt] by (auto simp: ToNumeric_def ToPrimitive_plain bindE_def)

lemma js_times_plain_all:
  "plain a \<Longrightarrow> plain b \<Longrightarrow> \<exists>n. \<forall>h. js_times rt h a b = Inr (Num n)"
  using ToNumeric_plain_all [of a rt] ToNumeric_plain_all [of b rt]
  by (auto simp: js_times_def bindE_def)

lemma Scale_returns:
  assumes "plain_item h v" and k: "plain k"
  shows "fresh_result h [] (Scale rt v k h)"
proof -
  from assms obtain i h1 where e: "Ensure [v] h = Inr (Ref i, h1)"
    and p: "plain (own_prop h1 i ''x'')" "plain (own_prop h1 i ''y'')"
    using Ensure_plain by blast
  from p(1) k obtain nx where x: "\<And>hx. js_times rt hx (own_prop h1 i ''x'') k = Inr (Num nx)"
    using js_times_plain_all by blast
  from p(2) k obtain ny where y: "\<And>hx. js_times rt hx (own_prop h1 i ''y'') k = Inr (Num ny)"
    using js_times_plain_all by blast
  have "\<not> isl (Scale rt v k h)"
    by (simp add: Scale_def bindM_def e Clone_Ref compound_assign_ret store_x store_y
          own_prop_last_x own_prop_last_y x y bindE_Inr) (simp add: ret_def)
  then show ?thesis using Scale_cases by (rule not_isl_fresh)
qed


lemma FromPolar_cases:
  "isl (FromPolar rt t r h) \<or>
   (\<exists>vx vy. FromPolar rt t r h = Inr (Ref (length h), h @ [point_obj vx vy]))"
  by (auto simp: FromPolar_def bindM_def lift_def alloc_def split: sum.splits)

lemma FromPolar_fresh_cases: "isl (FromPolar rt t r h) \<or> fresh_result h [] (FromPolar rt t r h)"
  using FromPolar_cases [of rt t r h] fresh_last [OF frame_refl, of h] by auto

lemma FromPolar_returns:
  assumes "plain t" and "plain r"
  shows "\<exists>nx ny. FromPolar rt t r h = Inr (Ref (length h), h @ [point_obj (Num nx) (Num ny)])"
proof -
  from assms(1) obtain c where c: "Math_cos rt h t = Inr (Num c)" using Math_cos_plain by blast
  from assms(1) obtain s where s: "Math_sin rt h t = Inr (Num s)" using Math_sin_plain by blast
  from assms(2) obtain nx where x: "js_times rt h r (Num c) = Inr (Num nx)"
    using js_times_plain [of r "Num c"] by auto
  from assms(2) obtain ny where y: "js_times rt h r (Num s) = Inr (Num ny)"
    using js_times_plain [of r "Num s"] by auto
  have "FromPolar rt t r h = Inr (Ref (length h), h @ [point_obj (Num nx) (Num ny)])"
    by (simp add: FromPolar_def bindM_def lift_def alloc_def c s x y)
  then show ?thesis by blast
qed

lemma FromPolar_fresh: "plain t \<Longrightarrow> plain r \<Longrightarrow> fresh_result h [] (FromPolar rt t r h)"
  using FromPolar_returns [of t r rt h] fresh_last [OF frame_refl, of h] by auto

text \<open>the tail shared by Rotate and FromArc: FromPolar, then Add to an origin\<close>

lemma polar_add_cases:
  "isl (bindM (FromPolar rt t r) (\<lambda>q. Add rt org q Undefined) h) \<or>
   fresh_result h [] (bindM (FromPolar rt t r) (\<lambda>q. Add rt org q Undefined) h)"
  using FromPolar_cases [of rt t r h]
proof (elim disjE exE)
  assume "isl (FromPolar rt t r h)"
  then show ?thesis by (cases "FromPolar rt t r h") (simp_all add: bindM_def)
next
  fix vx vy
  assume fp: "FromPolar rt t r h = Inr (Ref (length h), h @ [point_obj vx vy])"
  let ?h1 = "h @ [point_obj vx vy]"
  have e: "bindM (FromPolar rt t r) (\<lambda>q. Add rt org q Undefined) h =
      Add rt org (Ref (length h)) Undefined ?h1"
    by (simp add: bindM_def fp)
  from Add_cases [of rt org "Ref (length h)" Undefined ?h1] show ?thesis
  proof
    assume "isl (Add rt org (Ref (length h)) Undefined ?h1)"
    with e show ?thesis by simp
  next
    assume "fresh_result ?h1 [] (Add rt org (Ref (length h)) Undefined ?h1)"
    with frame_append have "fresh_result h [] (Add rt org (Ref (length h)) Undefined ?h1)"
      by (rule fresh_result_frame)
    with e show ?thesis by simp
  qed
qed

lemma polar_add_returns:
  assumes "plain t" and "plain r" and o: "plain_item h org"
  shows "fresh_result h [] (bindM (FromPolar rt t r) (\<lambda>q. Add rt org q Undefined) h)"
proof -
  from assms(1,2) obtain nx ny where
    fp: "FromPolar rt t r h = Inr (Ref (length h), h @ [point_obj (Num nx) (Num ny)])"
    using FromPolar_returns by blast
  let ?h1 = "h @ [point_obj (Num nx) (Num ny)]"
  have e: "bindM (FromPolar rt t r) (\<lambda>q. Add rt org q Undefined) h =
      Add rt org (Ref (length h)) Undefined ?h1"
    by (simp add: bindM_def fp)
  have f: "frame h ?h1" by (rule frame_append)
  then have po: "plain_item ?h1 org" using o by (rule plain_item_frame)
  have "num_point_at ?h1 (Ref (length h)) nx ny" by (rule num_point_last)
  then have pq: "plain_item ?h1 (Ref (length h))" by (rule num_point_plain_item)
  from po pq have "fresh_result ?h1 [] (Add rt org (Ref (length h)) Undefined ?h1)"
    by (rule Add_returns)
  with f show ?thesis unfolding e by (rule fresh_result_frame)
qed

lemma polar_add_value:
  assumes o: "coerces_to h org ox oy"
  shows "new_num_point h (bindM (FromPolar rt (Num t) (Num r)) (\<lambda>q. Add rt org q Undefined) h)
           (num_add ox (num_mul r (num_cos rt t))) (num_add oy (num_mul r (num_sin rt t)))"
proof -
  let ?qx = "num_mul r (num_cos rt t)" and ?qy = "num_mul r (num_sin rt t)"
  let ?h1 = "h @ [point_obj (Num ?qx) (Num ?qy)]"
  have e: "bindM (FromPolar rt (Num t) (Num r)) (\<lambda>q. Add rt org q Undefined) h =
      Add rt org (Ref (length h)) Undefined ?h1"
    by (simp add: bindM_def FromPolar_value)
  have f: "frame h ?h1" by (rule frame_append)
  then have po: "coerces_to ?h1 org ox oy" using o by (rule coerces_to_frame)
  have "num_point_at ?h1 (Ref (length h)) ?qx ?qy" by (rule num_point_last)
  then have pq: "coerces_to ?h1 (Ref (length h)) ?qx ?qy" by (simp add: coerces_to_def)
  have "new_num_point ?h1 (Add rt org (Ref (length h)) Undefined ?h1)
      (num_add ox ?qx) (num_add oy ?qy)"
    using Add_value [OF po pq, of rt Undefined] by simp
  with f show ?thesis unfolding e by (rule new_num_point_frame)
qed

lemma Rotate_unfold:
  assumes "FromPointToRadians rt h p org = Inr th" and "PointDistance rt h org p = Inr dl"
    and "ToRadians rt h d = Inr dr"
  shows "Rotate rt p d org h =
     bindM (lift (\<lambda>h. js_plus rt h th dr)) (\<lambda>angle.
     bindM (FromPolar rt angle dl) (\<lambda>offset. Add rt org offset Undefined)) h"
  using assms by (simp add: Rotate_def bindM_def lift_def)

lemma Rotate_raises:
  assumes "isl (FromPointToRadians rt h p org) \<or> isl (PointDistance rt h org p) \<or> isl (ToRadians rt h d)"
  shows "isl (Rotate rt p d org h)"
proof (cases "FromPointToRadians rt h p org")
  case (Inl e)
  then show ?thesis by (simp add: Rotate_def bindM_def lift_def)
next
  case th: (Inr th)
  show ?thesis
  proof (cases "PointDistance rt h org p")
    case (Inl e)
    with th show ?thesis by (simp add: Rotate_def bindM_def lift_def)
  next
    case dl: (Inr dl)
    show ?thesis
    proof (cases "ToRadians rt h d")
      case (Inl e)
      with th dl show ?thesis by (simp add: Rotate_def bindM_def lift_def)
    next
      case (Inr t)
      with th dl assms show ?thesis by simp
    qed
  qed
qed

lemma Rotate_cases: "isl (Rotate rt p d org h) \<or> fresh_result h [] (Rotate rt p d org h)"
proof (cases "isl (FromPointToRadians rt h p org) \<or> isl (PointDistance rt h org p) \<or>
    isl (ToRadians rt h d)")
  case True
  then have "isl (Rotate rt p d org h)" by (rule Rotate_raises)
  then show ?thesis ..
next
  case False
  then obtain th dl dr where x: "FromPointToRadians rt h p org = Inr th"
    "PointDistance rt h org p = Inr dl" "ToRadians rt h d = Inr dr"
    using not_isl_Inr [of "FromPointToRadians rt h p org"]
      not_isl_Inr [of "PointDistance rt h org p"] not_isl_Inr [of "ToRadians rt h d"]
    by auto
  show ?thesis
  proof (cases "js_plus rt h th dr")
    case (Inl e)
    then have "isl (Rotate rt p d org h)"
      by (simp add: Rotate_unfold [OF x] bindM_def lift_def)
    then show ?thesis ..
  next
    case (Inr angle)
    then have "Rotate rt p d org h =
        bindM (FromPolar rt angle dl) (\<lambda>offset. Add rt org offset Undefined) h"
      by (simp add: Rotate_unfold [OF x] bindM_def lift_def)
    then show ?thesis using polar_add_cases [of rt angle dl org h] by simp
  qed
qed

lemma Rotate_returns:
  assumes x: "FromPointToRadians rt h p org = Inr th" "PointDistance rt h org p = Inr dl"
      "ToRadians rt h d = Inr dr"
    and pl: "plain th" "plain dl" "plain dr" and o: "plain_item h org"
  shows "fresh_result h [] (Rotate rt p d org h)"
proof -
  from pl(1,3) obtain angle where a: "js_plus rt h th dr = Inr angle" and pa: "plain angle"
    using js_plus_plain by blast
  have "Rotate rt p d org h =
      bindM (FromPolar rt angle dl) (\<lambda>offset. Add rt org offset Undefined) h"
    by (simp add: Rotate_unfold [OF x] bindM_def lift_def a)
  then show ?thesis using polar_add_returns [OF pa pl(2) o, of rt] by simp
qed

lemma Rotate_value:
  assumes x: "FromPointToRadians rt h p org = Inr (Num th)"
      "PointDistance rt h org p = Inr (Num dl)" "ToRadians rt h d = Inr (Num dr)"
    and o: "coerces_to h org ox oy"
  shows "new_num_point h (Rotate rt p d org h)
           (num_add ox (num_mul dl (num_cos rt (num_add th dr))))
           (num_add oy (num_mul dl (num_sin rt (num_add th dr))))"
proof -
  have "Rotate rt p d org h =
      bindM (FromPolar rt (Num (num_add th dr)) (Num dl))
        (\<lambda>offset. Add rt org offset Undefined) h"
    by (simp add: Rotate_unfold [OF x] bindM_def lift_def js_plus_Num)
  then show ?thesis using polar_add_value [OF o, of rt "num_add th dr" dl] by simp
qed

text \<open>arcs\<close>

lemma arc_point_cases:
  "isl (arc_point rt org r ang h) \<or> fresh_result h [] (arc_point rt org r ang h)"
proof (cases "ToRadians rt h ang")
  case (Inl e)
  then show ?thesis by (simp add: arc_point_def bindM_def lift_def)
next
  case (Inr rad)
  then have "arc_point rt org r ang h =
      bindM (FromPolar rt rad r) (\<lambda>q. Add rt org q Undefined) h"
    by (simp add: arc_point_def bindM_def lift_def)
  then show ?thesis using polar_add_cases [of rt rad r org h] by simp
qed

lemma arc_point_frame: "arc_point rt org r ang h = Inr (v, h') \<Longrightarrow> frame h h'"
  using arc_point_cases [of rt org r ang h] fresh_resultD [of h "[]" "arc_point rt org r ang h"]
  by auto


lemma arc_point_value:
  assumes "ToRadians rt h ang = Inr (Num t)" and o: "coerces_to h org ox oy"
  shows "new_num_point h (arc_point rt org (Num r) ang h)
           (num_add ox (num_mul r (num_cos rt t))) (num_add oy (num_mul r (num_sin rt t)))"
proof -
  have "arc_point rt org (Num r) ang h =
      bindM (FromPolar rt (Num t) (Num r)) (\<lambda>q. Add rt org q Undefined) h"
    by (simp add: arc_point_def bindM_def lift_def assms(1))
  then show ?thesis using polar_add_value [OF o, of rt t r] by simp
qed

lemma getProp_read:
  "arc \<noteq> Undefined \<Longrightarrow> arc \<noteq> Null \<Longrightarrow> getProp arc k h = Inr (read_prop h arc k, h)"
  by (cases arc) (simp_all add: read_prop_def reads_def ret_def)

lemma read_prop_frame:
  "valid_ref h arc \<Longrightarrow> frame h h' \<Longrightarrow> read_prop h' arc k = read_prop h arc k"
  by (cases arc) (simp_all add: read_prop_def valid_ref_def own_prop_frame)

lemma getPointFromAngle_read:
  assumes "arc \<noteq> Undefined" and "arc \<noteq> Null"
  shows "getPointFromAngle rt arc ang h =
     arc_point rt (read_prop h arc ''origin'') (read_prop h arc ''radius'') ang h"
  by (simp add: getPointFromAngle_def arc_point_def bindM_def lift_def getProp_read [OF assms]
        del: getProp.simps split: sum.splits)

lemma FromArc_read:
  assumes arc: "arc \<noteq> Undefined" "arc \<noteq> Null" and v: "valid_ref h arc"
  shows "FromArc rt arc h =
     bindM (arc_point rt (read_prop h arc ''origin'') (read_prop h arc ''radius'')
              (read_prop h arc ''startAngle''))
       (\<lambda>p0. bindM (arc_point rt (read_prop h arc ''origin'') (read_prop h arc ''radius'')
                        (read_prop h arc ''endAngle''))
       (\<lambda>p1. alloc (array_obj [p0, p1]))) h"
proof (cases "arc_point rt (read_prop h arc ''origin'') (read_prop h arc ''radius'')
    (read_prop h arc ''startAngle'') h")
  case (Inl e)
  then show ?thesis
    by (simp add: FromArc_def bindM_def getProp_read [OF arc] getPointFromAngle_read [OF arc]
          del: getProp.simps)
next
  case (Inr p)
  obtain p0 h1 where p: "p = (p0, h1)" by (cases p)
  with Inr have "frame h h1" using arc_point_frame by blast
  with v have o: "read_prop h1 arc k = read_prop h arc k" for k by (rule read_prop_frame)
  show ?thesis using Inr p
    by (simp add: FromArc_def bindM_def getProp_read [OF arc] getPointFromAngle_read [OF arc] o
          del: getProp.simps)
qed

lemma FromArc_unfold:
  assumes "n < length h"
  shows "FromArc rt (Ref n) h =
     bindM (arc_point rt (own_prop h n ''origin'') (own_prop h n ''radius'') (own_prop h n ''startAngle''))
       (\<lambda>p0. bindM (arc_point rt (own_prop h n ''origin'') (own_prop h n ''radius'') (own_prop h n ''endAngle''))
       (\<lambda>p1. alloc (array_obj [p0, p1]))) h"
  using FromArc_read [of "Ref n" h rt] assms by (simp add: valid_ref_def read_prop_def)

lemma array_elems_last: "array_elems (h @ [array_obj es]) (Ref (length h)) = Some es"
  by (simp add: array_elems_def heap_lookup_def array_obj_def)

lemma FromArc_value:
  assumes a: "a < length h"
    and o: "coerces_to h (own_prop h a ''origin'') ox oy"
    and r: "own_prop h a ''radius'' = Num r"
    and s: "\<And>h'. ToRadians rt h' (own_prop h a ''startAngle'') = Inr (Num ts)"
    and e: "\<And>h'. ToRadians rt h' (own_prop h a ''endAngle'') = Inr (Num te)"
  shows "returns_points h (FromArc rt (Ref a) h)
           (num_add ox (num_mul r (num_cos rt ts)), num_add oy (num_mul r (num_sin rt ts)))
           (num_add ox (num_mul r (num_cos rt te)), num_add oy (num_mul r (num_sin rt te)))"
proof -
  let ?org = "own_prop h a ''origin''"
  let ?sx = "num_add ox (num_mul r (num_cos rt ts))" and ?sy = "num_add oy (num_mul r (num_sin rt ts))"
  let ?ex = "num_add ox (num_mul r (num_cos rt te))" and ?ey = "num_add oy (num_mul r (num_sin rt te))"
  have "new_num_point h (arc_point rt ?org (Num r) (own_prop h a ''startAngle'') h) ?sx ?sy"
    using s o by (rule arc_point_value)
  then obtain n0 h1 where
    r0: "arc_point rt ?org (Num r) (own_prop h a ''startAngle'') h = Inr (Ref n0, h1)"
    and f1: "frame h h1" and p0: "num_point_at h1 (Ref n0) ?sx ?sy"
    using new_num_pointD by blast
  from f1 o have "coerces_to h1 ?org ox oy" by (rule coerces_to_frame)
  with e have "new_num_point h1 (arc_point rt ?org (Num r) (own_prop h a ''endAngle'') h1) ?ex ?ey"
    by (rule arc_point_value)
  then obtain n1 h2 where
    r1: "arc_point rt ?org (Num r) (own_prop h a ''endAngle'') h1 = Inr (Ref n1, h2)"
    and f2: "frame h1 h2" and p1: "num_point_at h2 (Ref n1) ?ex ?ey"
    using new_num_pointD by blast
  let ?h3 = "h2 @ [array_obj [Ref n0, Ref n1]]"
  have res: "FromArc rt (Ref a) h = Inr (Ref (length h2), ?h3)"
    using a by (simp add: FromArc_unfold r bindM_def r0 r1 alloc_def)
  have f02: "frame h h2" using f1 f2 by (rule frame_trans)
  then have fr: "fresh_result h [] (Inr (Ref (length h2), ?h3))" by (rule fresh_last)
  have f23: "frame h2 ?h3" by (rule frame_append)
  from f2 p0 have "num_point_at h2 (Ref n0) ?sx ?sy" by (rule num_point_at_frame)
  with f23 have q0: "num_point_at ?h3 (Ref n0) ?sx ?sy" by (rule num_point_at_frame)
  from f23 p1 have q1: "num_point_at ?h3 (Ref n1) ?ex ?ey" by (rule num_point_at_frame)
  show ?thesis
    unfolding res returns_points_def using fr q0 q1
    by (simp add: array_elems_last del: num_point_at.simps)
qed



lemma overflow_threshold_pos: "0 < overflow_threshold"
  by (simp add: overflow_threshold_def)


lemma round64_0: "round64 0 = Fin 0"
  using overflow_threshold_pos by (simp add: round64_def nearest_double_def)

lemma round64_1: "round64 1 = Fin 1"
  by (simp add: round64_def nearest_double_def overflow_threshold_def ulp_exponent_def
       power_int_minus round_even_def Let_def)

lemma round64_overflow:
  "round64 (huge + huge) = PInf" "round64 (huge * 2) = PInf" "round64 (2 * huge) = PInf"
  by (simp_all add: round64_def overflow_threshold_def huge_def)

lemma nearest_double_0: "nearest_double 0 = 0"
  by (simp add: nearest_double_def)

lemma num_sub_Fin: "num_sub (Fin a) (Fin b) = round64 (a - b)"
  by (simp add: num_sub_def)

lemma exact64_0: "exact64 0"
  by (simp add: exact64_def round64_0)

lemma exact64_1: "exact64 1"
  by (simp add: exact64_def round64_1)

lemma ex_facts:
  "point_at example_heap (Ref 0) 1 0" "point_at example_heap (Ref 1) 0 0"
  "point_at example_heap (Ref (Suc 0)) 0 0"
  "pair_at example_heap (Ref 2) 3 4"
  "own_prop example_heap 3 ''origin'' = Ref 1"
  "own_prop example_heap 3 ''radius'' = Num (Fin 5)"
  "own_prop example_heap 3 ''startAngle'' = Num (Fin 0)"
  "own_prop example_heap 3 ''endAngle'' = Num (Fin 90)"
  "length example_heap = 4"
  by (simp_all add: example_heap_def own_prop_def heap_lookup_def point_obj_def array_obj_def
        pair_at_def isArray_def arrayLength_def getIndex_def array_elems_def)

lemma ex_host:
  "ToRadians example_host h (Num (Fin d)) = Inr (Num (Fin (nearest_double (d * pi / 180))))"
  "ToRadians example_host h (Num (Fin 0)) = Inr (Num (Fin 0))"
  "ToRadians example_host h (Num (Fin 90)) = Inr (Num (Fin quarter_turn))"
  "FromPointToRadians example_host h p q = Inr (Num (Fin 0))"
  "PointDistance example_host h p q = Inr (Num (Fin 1))"
  "\<not> isl (ToRadians example_host h v)"
  "returns_plain (ToRadians example_host h v)"
  "MathCos example_host x = round64 (cos x)"
  "MathSin example_host x = round64 (sin x)"
  by (simp_all add: example_host_def returns_plain_def quarter_turn_def nearest_double_0
        split: jsval.splits number.splits)

lemma ex_arc_plain:
  "\<not> IsPoint example_heap (Ref 3)" "\<not> isArray example_heap (Ref 3)"
  by (simp_all add: example_heap_def heap_lookup_def isArray_def array_elems_def)

lemma ovf_facts:
  "point_at overflow_heap (Ref 0) huge 0"
  "point_at overflow_heap (Ref 1) (- huge) 0"
  "point_at overflow_heap (Ref (Suc 0)) (- huge) 0"
  "pair_at overflow_heap (Ref 2) huge 1"
  by (simp_all add: overflow_heap_def own_prop_def heap_lookup_def point_obj_def array_obj_def
        pair_at_def isArray_def arrayLength_def getIndex_def array_elems_def)

lemma Add_Subtract_value:
  assumes a: "point_at h a px py" and b: "point_at h b qx qy"
  shows "new_num_point h (bindM (Subtract rt a b) (\<lambda>diff. Add rt diff b Undefined) h)
           (num_add (round64 (px - qx)) (Fin qx)) (num_add (round64 (py - qy)) (Fin qy))"
proof -
  from a have ca: "coerces_to h a (Fin px) (Fin py)" by (simp add: coerces_to_def point_at_num)
  from b have cb: "coerces_to h b (Fin qx) (Fin qy)" by (simp add: coerces_to_def point_at_num)
  have "new_num_point h (Add rt a b (Bool True) h) (round64 (px - qx)) (round64 (py - qy))"
    using Add_value [OF ca cb, of rt "Bool True"] by (simp add: num_sub_Fin)
  then obtain n h1 where s: "Subtract rt a b h = Inr (Ref n, h1)" and f: "frame h h1"
    and p: "num_point_at h1 (Ref n) (round64 (px - qx)) (round64 (py - qy))"
    unfolding Subtract_def using new_num_pointD by blast
  from f cb have c1: "coerces_to h1 b (Fin qx) (Fin qy)" by (rule coerces_to_frame)
  from p have c2: "coerces_to h1 (Ref n) (round64 (px - qx)) (round64 (py - qy))"
    by (simp add: coerces_to_def)
  have "new_num_point h1 (Add rt (Ref n) b Undefined h1)
      (num_add (round64 (px - qx)) (Fin qx)) (num_add (round64 (py - qy)) (Fin qy))"
    using Add_value [OF c2 c1, of rt Undefined] by simp
  with f have "new_num_point h (Add rt (Ref n) b Undefined h1)
      (num_add (round64 (px - qx)) (Fin qx)) (num_add (round64 (py - qy)) (Fin qy))"
    by (rule new_num_point_frame)
  then show ?thesis by (simp add: bindM_def s)
qed

lemma floor_log2_two_53: "\<lfloor>log 2 (1 + two_53)\<rfloor> = 53"
proof -
  have "(53::real) \<le> log 2 (1 + two_53)"
    by (subst le_log_iff) (simp_all add: two_53_def powr_numeral)
  moreover have "log 2 (1 + two_53) < 54"
    by (subst log_less_iff) (simp_all add: two_53_def powr_numeral)
  ultimately show ?thesis by (simp add: floor_eq_iff)
qed

lemma round64_cancel: "round64 (1 + two_53) = Fin two_53" "round64 (two_53 + - two_53) = Fin 0"
proof -
  have p: "0 < 1 + two_53" by (simp add: two_53_def)
  have u: "ulp_exponent (1 + two_53) = 1"
    using p by (simp add: ulp_exponent_def floor_log2_two_53)
  have f: "\<lfloor>(1 + two_53) / 2\<rfloor> = 4503599627370496"
    by (simp add: two_53_def floor_eq_iff)
  have r: "round_even ((1 + two_53) / 2) = 4503599627370496"
    unfolding round_even_def Let_def f by (simp add: two_53_def)
  have n: "nearest_double (1 + two_53) = two_53"
    using p by (simp add: nearest_double_def u r) (simp add: two_53_def)
  show "round64 (1 + two_53) = Fin two_53"
    by (simp add: round64_def n) (simp add: two_53_def overflow_threshold_def)
  show "round64 (two_53 + - two_53) = Fin 0" by (simp add: round64_0)
qed

lemma round64_2: "round64 2 = Fin 2"
  by (simp add: round64_def nearest_double_def overflow_threshold_def ulp_exponent_def
       power_int_minus round_even_def Let_def)

lemma rnd_facts:
  "point_at rounding_heap (Ref 0) 1 0"
  "point_at rounding_heap (Ref 1) (- two_53) 0"
  "point_at rounding_heap (Ref (Suc 0)) (- two_53) 0"
  by (simp_all add: rounding_heap_def own_prop_def heap_lookup_def point_obj_def)


lemma returns_plain_Num: "returns_plain (Inr (Num n))"
  by (simp add: returns_plain_def)


lemma round_even_of_int: "round_even (of_int k) = k"
  by (simp add: round_even_def)

lemma floor_log2: 
  assumes "2 ^ e \<le> \<bar>x\<bar>" and "\<bar>x\<bar> < 2 ^ Suc e"
  shows "\<lfloor>log 2 \<bar>x::real\<bar>\<rfloor> = int e"
proof -
  have "(0::real) < 2 ^ e" by simp
  with assms(1) have p: "0 < \<bar>x\<bar>" by linarith
  have "real e \<le> log 2 \<bar>x\<bar>"
    using p assms(1) by (subst le_log_iff) (simp_all add: powr_realpow)
  moreover have "log 2 \<bar>x\<bar> < real (Suc e)"
  proof -
    have "(2::real) powr real (Suc e) = 2 ^ Suc e" by (rule powr_realpow) simp
    with assms(2) have "\<bar>x\<bar> < 2 powr real (Suc e)" by simp
    with p show ?thesis by (subst log_less_iff) simp_all
  qed
  ultimately show ?thesis by (simp add: floor_eq_iff)
qed

lemma powi_ulp: "e \<le> 52 \<Longrightarrow> (2::real) powi (int e - 52) = 1 / 2 ^ (52 - e)"
  by (simp add: power_int_def nat_diff_distrib' field_simps flip: power_add)

lemma round64_of_int:
  assumes "2 ^ e \<le> \<bar>real_of_int m\<bar>" and "\<bar>real_of_int m\<bar> < 2 ^ Suc e" and "e \<le> 52"
  shows "round64 (of_int m) = Fin (of_int m)"
proof -
  have "(0::real) < 2 ^ e" by simp
  with assms(1) have nz: "real_of_int m \<noteq> 0" by linarith
  have u: "ulp_exponent (of_int m) = int e - 52"
    using assms(3) by (simp add: ulp_exponent_def floor_log2 [OF assms(1,2)])
  have q: "real_of_int m / 2 powi (int e - 52) = of_int (m * 2 ^ (52 - e))"
    using assms(3) by (simp add: powi_ulp)
  have n: "nearest_double (of_int m) = of_int m"
    unfolding nearest_double_def u q round_even_of_int
    using nz assms(3) by (simp add: powi_ulp)
  have "\<bar>real_of_int m\<bar> < 2 ^ 53"
  proof -
    have "(2::real) ^ Suc e \<le> 2 ^ 53" using assms(3) by (intro power_increasing) simp_all
    with assms(2) show ?thesis by linarith
  qed
  then have "\<bar>real_of_int m\<bar> < overflow_threshold" by (simp add: overflow_threshold_def)
  then show ?thesis by (auto simp: round64_def n)
qed

lemma round64_small:
  "round64 2 = Fin 2" "round64 4 = Fin 4" "round64 5 = Fin 5" "round64 6 = Fin 6"
  "round64 8 = Fin 8" "round64 (- 2) = Fin (- 2)" "round64 (- 4) = Fin (- 4)"
  using round64_of_int [of 1 2] round64_of_int [of 2 4] round64_of_int [of 2 5]
    round64_of_int [of 2 6] round64_of_int [of 3 8] round64_of_int [of 1 "- 2"]
    round64_of_int [of 2 "- 4"]
  by simp_all

lemma point_at_plain_item: "point_at h v cx cy \<Longrightarrow> plain_item h v"
  using num_point_plain_item [of h v "Fin cx" "Fin cy"] by (simp add: point_at_num)

lemma returns_numbers_unique:
  "returns_numbers r nx ny \<Longrightarrow> returns_numbers r mx my \<Longrightarrow> nx = mx \<and> ny = my"
  by (cases r) (auto simp: returns_numbers_def elim!: num_point_at.elims)

section \<open>Properties of the module\<close>

text \<open>
  C1, as the specification states it, fails on an array whose elements are not numbers.
  The array \<open>[''a'', ''b'']\<close> is truthy, is not Point-shaped, is not a sequence of at
  least two numbers, and the call has no second argument: the fifth rule would give
  \<open>Zero()\<close>. \<open>Ensure\<close> returns the new object \<open>{ x: ''a'', y: ''b'' }\<close> instead, since it tests
  \<open>Array.isArray(item) && item.length > 1\<close> and never looks at the elements.
\<close>

theorem Ensure_sequence_of_strings_counterexample:
  "ToBoolean (Ref 0) \<and>
   \<not> IsPoint [array_obj [Str ''a'', Str ''b'']] (Ref 0) \<and>
   \<not> number_seq [array_obj [Str ''a'', Str ''b'']] (Ref 0) \<and>
   length [Ref 0] = 1 \<and>
   Ensure [Ref 0] [array_obj [Str ''a'', Str ''b'']] =
     Inr (Ref 1, [array_obj [Str ''a'', Str ''b''], point_obj (Str ''a'') (Str ''b'')]) \<and>
   Ensure [Ref 0] [array_obj [Str ''a'', Str ''b'']] \<noteq> Zero [array_obj [Str ''a'', Str ''b'']]"
  by (simp add: Ensure_def argument_def Let_def ret_def alloc_def isArray_def arrayLength_def
        array_elems_def heap_lookup_def getIndex_def array_obj_def Zero_def number_seq_def
        point_obj_def)

text \<open>
  C1 (amended). \<open>Ensure\<close> follows five rules in precedence order. Called without an
  argument, or with an absent or falsy item, it returns \<open>Zero()\<close>. Otherwise, a Point-shaped
  item is returned as it is. Otherwise, if the item is an array of at least two elements,
  whatever these elements are, it returns a new Point with \<open>x = item[0]\<close> and
  \<open>y = item[1]\<close>, ignoring further elements. Otherwise, if a second argument was supplied,
  it returns a new Point whose \<open>x\<close> and \<open>y\<close> are both the first argument. Otherwise it
  returns \<open>Zero()\<close>. (A Point-shaped item and an array are objects, hence truthy.)
\<close>

theorem Ensure_five_rules:
  "Ensure [] h = Zero h \<and>
   (\<not> ToBoolean item \<longrightarrow> Ensure (item # rest) h = Zero h) \<and>
   (IsPoint h item \<longrightarrow> Ensure (item # rest) h = Inr (item, h)) \<and>
   (\<not> IsPoint h item \<and> array_elems h item = Some es \<and> 2 \<le> length es \<longrightarrow>
      Ensure (item # rest) h = Inr (Ref (length h), h @ [point_obj (es ! 0) (es ! 1)])) \<and>
   (ToBoolean item \<and> \<not> IsPoint h item \<and> \<not> (isArray h item \<and> 2 \<le> arrayLength h item) \<and>
    rest \<noteq> [] \<longrightarrow>
      Ensure (item # rest) h = Inr (Ref (length h), h @ [point_obj item item])) \<and>
   (ToBoolean item \<and> \<not> IsPoint h item \<and> \<not> (isArray h item \<and> 2 \<le> arrayLength h item) \<and>
    rest = [] \<longrightarrow>
      Ensure (item # rest) h = Zero h)"
proof -
  have r0: "Ensure [] h = Zero h"
    by (simp add: Ensure_def argument_def)
  have r1: "\<not> ToBoolean item \<longrightarrow> Ensure (item # rest) h = Zero h"
    by (simp add: Ensure_def argument_def)
  have r2: "IsPoint h item \<longrightarrow> Ensure (item # rest) h = Inr (item, h)"
    by (simp add: Ensure_point)
  have r3: "\<not> IsPoint h item \<and> array_elems h item = Some es \<and> 2 \<le> length es \<longrightarrow>
      Ensure (item # rest) h = Inr (Ref (length h), h @ [point_obj (es ! 0) (es ! 1)])"
  proof (intro impI, elim conjE)
    assume n: "\<not> IsPoint h item" and e: "array_elems h item = Some es" and l: "2 \<le> length es"
    from e have a: "isArray h item" by (simp add: isArray_def)
    then obtain a where "item = Ref a" using isArray_Ref by blast
    then have t: "ToBoolean item" by simp
    from e l have "1 < arrayLength h item" "getIndex h item 0 = es ! 0" "getIndex h item 1 = es ! 1"
      by (auto simp add: arrayLength_def getIndex_def)
    with Ensure_array [OF t n a, of rest] show
      "Ensure (item # rest) h = Inr (Ref (length h), h @ [point_obj (es ! 0) (es ! 1)])"
      by simp
  qed
  have r4: "ToBoolean item \<and> \<not> IsPoint h item \<and> \<not> (isArray h item \<and> 2 \<le> arrayLength h item) \<and>
    rest \<noteq> [] \<longrightarrow>
      Ensure (item # rest) h = Inr (Ref (length h), h @ [point_obj item item])"
    by (auto simp: Ensure_def argument_def alloc_def)
  have r5: "ToBoolean item \<and> \<not> IsPoint h item \<and> \<not> (isArray h item \<and> 2 \<le> arrayLength h item) \<and>
    rest = [] \<longrightarrow>
      Ensure (item # rest) h = Zero h"
    by (auto simp: Ensure_def argument_def alloc_def)
  show ?thesis by (intro conjI) (rule r0, rule r1, rule r2, rule r3, rule r4, rule r5)
qed

theorem Ensure_five_rules_witness:
  "Ensure [Null] example_heap = Zero example_heap \<and>
   IsPoint example_heap (Ref 0) \<and>
   Ensure [Ref 0] example_heap = Inr (Ref 0, example_heap) \<and>
   \<not> IsPoint example_heap (Ref 2) \<and>
   array_elems example_heap (Ref 2) = Some [Num (Fin 3), Num (Fin 4)] \<and>
   Ensure [Ref 2] example_heap =
     Inr (Ref 4, example_heap @ [point_obj (Num (Fin 3)) (Num (Fin 4))]) \<and>
   \<not> IsPoint example_heap (Ref 3) \<and> \<not> isArray example_heap (Ref 3) \<and>
   Ensure [Ref 3, Num (Fin 7)] example_heap =
     Inr (Ref 4, example_heap @ [point_obj (Ref 3) (Ref 3)]) \<and>
   Ensure [Ref 3] example_heap = Zero example_heap"
proof -
  have p0: "IsPoint example_heap (Ref 0)"
    using ex_facts(1) by (rule point_at_IsPoint)
  have p2: "\<not> IsPoint example_heap (Ref 2)" using ex_facts(4) by (simp add: pair_at_def)
  have e2: "array_elems example_heap (Ref 2) = Some [Num (Fin 3), Num (Fin 4)]"
    by (simp add: example_heap_def array_elems_def heap_lookup_def array_obj_def)
  note p3 = ex_arc_plain
  have r1: "Ensure [Null] example_heap = Zero example_heap"
    using Ensure_five_rules [where item = Null and rest = "[]" and h = example_heap] by simp
  have r2: "Ensure [Ref 0] example_heap = Inr (Ref 0, example_heap)"
    using Ensure_five_rules [where item = "Ref 0" and rest = "[]" and h = example_heap] p0 by simp
  have r3: "Ensure [Ref 2] example_heap =
     Inr (Ref 4, example_heap @ [point_obj (Num (Fin 3)) (Num (Fin 4))])"
    using Ensure_five_rules [where item = "Ref 2" and rest = "[]" and h = example_heap
        and es = "[Num (Fin 3), Num (Fin 4)]"] p2 e2
    by (simp add: ex_facts)
  have r4: "Ensure [Ref 3, Num (Fin 7)] example_heap =
     Inr (Ref 4, example_heap @ [point_obj (Ref 3) (Ref 3)])"
    using Ensure_five_rules [where item = "Ref 3" and rest = "[Num (Fin 7)]" and h = example_heap] p3
    by (simp add: ex_facts)
  have r5: "Ensure [Ref 3] example_heap = Zero example_heap"
    using Ensure_five_rules [where item = "Ref 3" and rest = "[]" and h = example_heap] p3 by simp
  show ?thesis
    by (intro conjI) (rule r1, rule p0, rule r2, rule p2, rule e2, rule r3, rule p3(1),
        rule p3(2), rule r4, rule r5)
qed







text \<open>
  C4. For every input that already satisfies the Point shape (an object of the heap whose
  \<open>x\<close> and \<open>y\<close> hold numbers), \<open>Ensure\<close> returns exactly the reference it was given:
  no object is allocated and the heap is left as it was, whatever further arguments the
  call has.
\<close>

theorem Ensure_returns_same_reference:
  assumes "heap_lookup h a = Some ob"
    and "map_of (props ob) ''x'' = Some (Num vx)"
    and "map_of (props ob) ''y'' = Some (Num vy)"
  shows "IsPoint h (Ref a) \<and> Ensure (Ref a # rest) h = Inr (Ref a, h)"
proof -
  from assms have p: "IsPoint h (Ref a)" by simp
  have "argument (Ref a # rest) 0 = Ref a" by (simp add: argument_def)
  moreover have "ToBoolean (Ref a)" by simp
  ultimately have "Ensure (Ref a # rest) h = Inr (Ref a, h)"
    using p by (simp add: Ensure_def Let_def ret_def)
  with p show ?thesis ..
qed

theorem Ensure_returns_same_reference_witness:
  "heap_lookup example_heap 0 = Some (point_obj (Num (Fin 1)) (Num (Fin 0))) \<and>
   map_of (props (point_obj (Num (Fin 1)) (Num (Fin 0)))) ''x'' = Some (Num (Fin 1)) \<and>
   map_of (props (point_obj (Num (Fin 1)) (Num (Fin 0)))) ''y'' = Some (Num (Fin 0)) \<and>
   Ensure [Ref 0] example_heap = Inr (Ref 0, example_heap) \<and>
   Ensure [Ref 0, Num (Fin 7)] example_heap = Inr (Ref 0, example_heap)"
proof -
  have a: "heap_lookup example_heap 0 = Some (point_obj (Num (Fin 1)) (Num (Fin 0)))"
    by (simp add: example_heap_def heap_lookup_def)
  have b: "map_of (props (point_obj (Num (Fin 1)) (Num (Fin 0)))) ''x'' = Some (Num (Fin 1))"
    by (simp add: point_obj_def)
  have c: "map_of (props (point_obj (Num (Fin 1)) (Num (Fin 0)))) ''y'' = Some (Num (Fin 0))"
    by (simp add: point_obj_def)
  note t = Ensure_returns_same_reference [OF a b c, THEN conjunct2]
  show ?thesis by (intro conjI) (rule a, rule b, rule c, rule t, rule t)
qed

text \<open>
  C5. For well-formed Point inputs, each of \<open>Zero\<close>, \<open>Clone\<close>, \<open>Add\<close>, \<open>Subtract\<close>, \<open>Scale\<close>,
  \<open>Mirror\<close>, \<open>Rotate\<close> and \<open>FromPolar\<close> returns a reference to an object that the call has
  allocated itself, distinct from every input, and leaves every object that existed
  before the call, the inputs among them, exactly as it was. The scale, the angle and
  the radius are plain values (numbers among them), and \<open>Rotate\<close> is given external
  utilities that return plain values.
\<close>

theorem operations_leave_inputs_unchanged:
  "fresh_result h [] (Zero h) \<and>
   (plain t \<and> plain r \<longrightarrow> fresh_result h [] (FromPolar rt t r h)) \<and>
   (point_at h p cx cy \<longrightarrow>
      fresh_result h [p] (Clone p h) \<and>
      (plain k \<longrightarrow> fresh_result h [p] (Scale rt p k h)) \<and>
      fresh_result h [p] (Mirror rt p mx my h)) \<and>
   (point_at h a px py \<and> point_at h b qx qy \<longrightarrow>
      fresh_result h [a, b] (Add rt a b s h) \<and>
      fresh_result h [a, b] (Subtract rt a b h)) \<and>
   (point_at h p cx cy \<and> point_at h org ox oy \<and>
    returns_plain (FromPointToRadians rt h p org) \<and> returns_plain (PointDistance rt h org p) \<and>
    returns_plain (ToRadians rt h d) \<longrightarrow>
      fresh_result h [p, org] (Rotate rt p d org h))"
proof -
  have c1: "fresh_result h [] (Zero h)" by (rule Zero_fresh)
  have c2: "plain t \<and> plain r \<longrightarrow> fresh_result h [] (FromPolar rt t r h)"
    using FromPolar_fresh [of t r h rt] by simp
  have c3: "point_at h p cx cy \<longrightarrow>
      fresh_result h [p] (Clone p h) \<and>
      (plain k \<longrightarrow> fresh_result h [p] (Scale rt p k h)) \<and>
      fresh_result h [p] (Mirror rt p mx my h)"
  proof
    assume p: "point_at h p cx cy"
    then have i: "\<And>v. v \<in> set [p] \<Longrightarrow> \<exists>cx cy. point_at h v cx cy" by auto
    from p have pl: "plain_item h p" by (rule point_at_plain_item)
    from p have "p \<noteq> Undefined" "p \<noteq> Null" by auto
    then have "fresh_result h [] (Clone p h)" by (rule Clone_fresh)
    then have 1: "fresh_result h [p] (Clone p h)" using i by (rule fresh_inputs)
    have 2: "plain k \<longrightarrow> fresh_result h [p] (Scale rt p k h)"
    proof
      assume "plain k"
      with pl have "fresh_result h [] (Scale rt p k h)" by (rule Scale_returns)
      then show "fresh_result h [p] (Scale rt p k h)" using i by (rule fresh_inputs)
    qed
    from pl have "fresh_result h [] (Mirror rt p mx my h)" by (rule Mirror_returns)
    then have 3: "fresh_result h [p] (Mirror rt p mx my h)" using i by (rule fresh_inputs)
    show "fresh_result h [p] (Clone p h) \<and>
      (plain k \<longrightarrow> fresh_result h [p] (Scale rt p k h)) \<and>
      fresh_result h [p] (Mirror rt p mx my h)"
      by (intro conjI) (rule 1, rule 2, rule 3)
  qed
  have c4: "point_at h a px py \<and> point_at h b qx qy \<longrightarrow>
      fresh_result h [a, b] (Add rt a b s h) \<and>
      fresh_result h [a, b] (Subtract rt a b h)"
  proof
    assume p: "point_at h a px py \<and> point_at h b qx qy"
    then have i: "\<And>v. v \<in> set [a, b] \<Longrightarrow> \<exists>cx cy. point_at h v cx cy" by auto
    from p have pa: "plain_item h a" and pb: "plain_item h b"
      using point_at_plain_item [of h a px py] point_at_plain_item [of h b qx qy] by simp_all
    from pa pb have "fresh_result h [] (Add rt a b s h)" by (rule Add_returns)
    then have 1: "fresh_result h [a, b] (Add rt a b s h)" using i by (rule fresh_inputs)
    from pa pb have "fresh_result h [] (Add rt a b (Bool True) h)" by (rule Add_returns)
    then have 2: "fresh_result h [a, b] (Subtract rt a b h)"
      unfolding Subtract_def using i by (rule fresh_inputs)
    from 1 2 show "fresh_result h [a, b] (Add rt a b s h) \<and>
      fresh_result h [a, b] (Subtract rt a b h)" by (rule conjI)
  qed
  have c5: "point_at h p cx cy \<and> point_at h org ox oy \<and>
    returns_plain (FromPointToRadians rt h p org) \<and> returns_plain (PointDistance rt h org p) \<and>
    returns_plain (ToRadians rt h d) \<longrightarrow>
      fresh_result h [p, org] (Rotate rt p d org h)"
  proof
    assume a: "point_at h p cx cy \<and> point_at h org ox oy \<and>
      returns_plain (FromPointToRadians rt h p org) \<and> returns_plain (PointDistance rt h org p) \<and>
      returns_plain (ToRadians rt h d)"
    then have i: "\<And>v. v \<in> set [p, org] \<Longrightarrow> \<exists>cx cy. point_at h v cx cy" by auto
    from a obtain th where 1: "FromPointToRadians rt h p org = Inr th" "plain th"
      by (cases "FromPointToRadians rt h p org") (simp_all add: returns_plain_def)
    from a obtain dl where 2: "PointDistance rt h org p = Inr dl" "plain dl"
      by (cases "PointDistance rt h org p") (simp_all add: returns_plain_def)
    from a obtain dr where 3: "ToRadians rt h d = Inr dr" "plain dr"
      by (cases "ToRadians rt h d") (simp_all add: returns_plain_def)
    from a have o: "plain_item h org" using point_at_plain_item [of h org ox oy] by simp
    from 1(1) 2(1) 3(1) 1(2) 2(2) 3(2) o have "fresh_result h [] (Rotate rt p d org h)"
      by (rule Rotate_returns)
    then show "fresh_result h [p, org] (Rotate rt p d org h)" using i by (rule fresh_inputs)
  qed
  show ?thesis by (intro conjI) (rule c1, rule c2, rule c3, rule c4, rule c5)
qed

theorem operations_leave_inputs_unchanged_witness:
  "point_at example_heap (Ref 0) 1 0 \<and> point_at example_heap (Ref 1) 0 0 \<and>
   plain (Num (Fin 2)) \<and> plain (Num (Fin 5)) \<and>
   returns_plain (FromPointToRadians example_host example_heap (Ref 0) (Ref 1)) \<and>
   returns_plain (PointDistance example_host example_heap (Ref 1) (Ref 0)) \<and>
   returns_plain (ToRadians example_host example_heap (Num (Fin 90))) \<and>
   fresh_result example_heap [] (FromPolar example_host (Num (Fin 2)) (Num (Fin 5)) example_heap) \<and>
   fresh_result example_heap [Ref 0] (Clone (Ref 0) example_heap) \<and>
   fresh_result example_heap [Ref 0] (Scale example_host (Ref 0) (Num (Fin 2)) example_heap) \<and>
   fresh_result example_heap [Ref 0] (Mirror example_host (Ref 0) (Bool True) (Bool True) example_heap) \<and>
   fresh_result example_heap [Ref 0, Ref 1] (Add example_host (Ref 0) (Ref 1) Undefined example_heap) \<and>
   fresh_result example_heap [Ref 0, Ref 1] (Subtract example_host (Ref 0) (Ref 1) example_heap) \<and>
   fresh_result example_heap [Ref 0, Ref 1]
     (Rotate example_host (Ref 0) (Num (Fin 90)) (Ref 1) example_heap)"
  using operations_leave_inputs_unchanged [where h = example_heap and rt = example_host
      and t = "Num (Fin 2)" and r = "Num (Fin 5)"
      and p = "Ref 0" and cx = 1 and cy = 0 and k = "Num (Fin 2)" and mx = "Bool True"
      and my = "Bool True" and a = "Ref 0" and px = 1 and py = 0 and b = "Ref 1" and qx = 0
      and qy = 0 and s = Undefined and org = "Ref 1" and ox = 0 and oy = 0 and d = "Num (Fin 90)"]
  by (simp add: ex_facts ex_host returns_plain_Num del: point_at.simps)

text \<open>
  C6. When the external utilities give the angle of \<open>p\<close> about \<open>o\<close>
  (\<open>FromPointToRadians(p, o)\<close>), the distance between \<open>o\<close> and \<open>p\<close> (\<open>PointDistance(o, p)\<close>)
  and the rotation in radians (\<open>ToRadians(d)\<close>), \<open>Rotate(p, d, o)\<close> is \<open>FromPolar\<close> at the
  sum of the two angles with that distance, added to \<open>o\<close> with \<open>Add\<close>. For finite numbers
  and an origin \<open>(ox, oy)\<close> the sum of the angles is the rounded \<open>angle + rotation\<close>, and
  the result is the new Point whose coordinates are \<open>ox + dist * cos\<close> and
  \<open>oy + dist * sin\<close> of that sum, as doubles compute them.
\<close>

theorem Rotate_is_polar_offset_from_origin:
  assumes "FromPointToRadians rt h p org = Inr th"
    and "PointDistance rt h org p = Inr dl"
    and "ToRadians rt h d = Inr dr"
  shows "Rotate rt p d org h =
           bindM (lift (\<lambda>h. js_plus rt h th dr)) (\<lambda>angle.
           bindM (FromPolar rt angle dl) (\<lambda>offset. Add rt org offset Undefined)) h \<and>
         (th = Num (Fin alpha) \<and> dl = Num (Fin rho) \<and> dr = Num (Fin beta) \<and>
          point_like h org ox oy \<longrightarrow>
            js_plus rt h th dr = Inr (Num (round64 (alpha + beta))) \<and>
            new_num_point h (Rotate rt p d org h)
              (num_add (Fin ox) (num_mul (Fin rho) (num_cos rt (round64 (alpha + beta)))))
              (num_add (Fin oy) (num_mul (Fin rho) (num_sin rt (round64 (alpha + beta))))))"
proof
  show "Rotate rt p d org h =
      bindM (lift (\<lambda>h. js_plus rt h th dr)) (\<lambda>angle.
      bindM (FromPolar rt angle dl) (\<lambda>offset. Add rt org offset Undefined)) h"
    using assms by (rule Rotate_unfold)
  show "th = Num (Fin alpha) \<and> dl = Num (Fin rho) \<and> dr = Num (Fin beta) \<and>
      point_like h org ox oy \<longrightarrow>
        js_plus rt h th dr = Inr (Num (round64 (alpha + beta))) \<and>
        new_num_point h (Rotate rt p d org h)
          (num_add (Fin ox) (num_mul (Fin rho) (num_cos rt (round64 (alpha + beta)))))
          (num_add (Fin oy) (num_mul (Fin rho) (num_sin rt (round64 (alpha + beta)))))"
    using assms Rotate_value [of rt h p org "Fin alpha" "Fin rho" d "Fin beta" "Fin ox" "Fin oy"]
      point_like_coerces [of h org ox oy]
    by (simp add: js_plus_Num)
qed

theorem Rotate_is_polar_offset_from_origin_witness:
  "FromPointToRadians example_host example_heap (Ref 0) (Ref 1) = Inr (Num (Fin 0)) \<and>
   PointDistance example_host example_heap (Ref 1) (Ref 0) = Inr (Num (Fin 1)) \<and>
   ToRadians example_host example_heap (Num (Fin 0)) = Inr (Num (Fin 0)) \<and>
   ToRadians example_host example_heap (Num (Fin 90)) = Inr (Num (Fin quarter_turn)) \<and>
   point_like example_heap (Ref 1) 0 0 \<and>
   Rotate example_host (Ref 0) (Num (Fin 0)) (Ref 1) example_heap =
     bindM (lift (\<lambda>h. js_plus example_host h (Num (Fin 0)) (Num (Fin 0)))) (\<lambda>angle.
     bindM (FromPolar example_host angle (Num (Fin 1)))
       (\<lambda>offset. Add example_host (Ref 1) offset Undefined)) example_heap \<and>
   new_num_point example_heap (Rotate example_host (Ref 0) (Num (Fin 0)) (Ref 1) example_heap)
     (Fin 1) (Fin 0) \<and>
   Rotate example_host (Ref 0) (Num (Fin 90)) (Ref 1) example_heap =
     bindM (lift (\<lambda>h. js_plus example_host h (Num (Fin 0)) (Num (Fin quarter_turn)))) (\<lambda>angle.
     bindM (FromPolar example_host angle (Num (Fin 1)))
       (\<lambda>offset. Add example_host (Ref 1) offset Undefined)) example_heap \<and>
   js_plus example_host example_heap (Num (Fin 0)) (Num (Fin quarter_turn)) =
     Inr (Num (round64 quarter_turn)) \<and>
   new_num_point example_heap (Rotate example_host (Ref 0) (Num (Fin 90)) (Ref 1) example_heap)
     (num_add (Fin 0) (num_mul (Fin 1) (num_cos example_host (round64 quarter_turn))))
     (num_add (Fin 0) (num_mul (Fin 1) (num_sin example_host (round64 quarter_turn))))"
proof -
  have a: "FromPointToRadians example_host example_heap (Ref 0) (Ref 1) = Inr (Num (Fin 0))"
    and b: "PointDistance example_host example_heap (Ref 1) (Ref 0) = Inr (Num (Fin 1))"
    and c: "ToRadians example_host example_heap (Num (Fin 0)) = Inr (Num (Fin 0))"
    and c': "ToRadians example_host example_heap (Num (Fin 90)) = Inr (Num (Fin quarter_turn))"
    by (simp_all add: ex_host nearest_double_0 quarter_turn_def)
  have d: "point_like example_heap (Ref 1) 0 0"
    by (simp add: ex_facts point_like_def del: point_at.simps)
  note t = Rotate_is_polar_offset_from_origin [OF a b c, where alpha = 0 and rho = 1
      and beta = 0 and ox = 0 and oy = 0]
  note u = Rotate_is_polar_offset_from_origin [OF a b c', where alpha = 0 and rho = 1
      and beta = quarter_turn and ox = 0 and oy = 0]
  have e: "Rotate example_host (Ref 0) (Num (Fin 0)) (Ref 1) example_heap =
     bindM (lift (\<lambda>h. js_plus example_host h (Num (Fin 0)) (Num (Fin 0)))) (\<lambda>angle.
     bindM (FromPolar example_host angle (Num (Fin 1)))
       (\<lambda>offset. Add example_host (Ref 1) offset Undefined)) example_heap"
    by (rule t [THEN conjunct1])
  have f: "new_num_point example_heap
      (Rotate example_host (Ref 0) (Num (Fin 0)) (Ref 1) example_heap) (Fin 1) (Fin 0)"
    using t [THEN conjunct2] d by (simp add: ex_host round64_0 round64_1)
  have g: "Rotate example_host (Ref 0) (Num (Fin 90)) (Ref 1) example_heap =
     bindM (lift (\<lambda>h. js_plus example_host h (Num (Fin 0)) (Num (Fin quarter_turn)))) (\<lambda>angle.
     bindM (FromPolar example_host angle (Num (Fin 1)))
       (\<lambda>offset. Add example_host (Ref 1) offset Undefined)) example_heap"
    by (rule u [THEN conjunct1])
  have i: "js_plus example_host example_heap (Num (Fin 0)) (Num (Fin quarter_turn)) =
       Inr (Num (round64 quarter_turn)) \<and>
     new_num_point example_heap (Rotate example_host (Ref 0) (Num (Fin 90)) (Ref 1) example_heap)
       (num_add (Fin 0) (num_mul (Fin 1) (num_cos example_host (round64 quarter_turn))))
       (num_add (Fin 0) (num_mul (Fin 1) (num_sin example_host (round64 quarter_turn))))"
    using u [THEN conjunct2] d by simp
  show ?thesis by (intro conjI) (rule a, rule b, rule c, rule c', rule d, rule e, rule f, rule g,
      rule i [THEN conjunct1], rule i [THEN conjunct2])
qed

text \<open>
  C7. For all inputs \<open>a\<close> and \<open>b\<close>, \<open>Subtract(a, b)\<close> returns exactly what
  \<open>Add(a, b, true)\<close> returns: the same value and the same heap, or the same error.
\<close>

theorem Subtract_is_Add_true:
  "Subtract rt a b h = Add rt a b (Bool True) h"
  by (simp add: Subtract_def)

theorem Subtract_is_Add_true_witness:
  "Subtract example_host (Ref 0) (Ref 2) example_heap =
     Add example_host (Ref 0) (Ref 2) (Bool True) example_heap"
  using Subtract_is_Add_true [of example_host "Ref 0" "Ref 2" example_heap]
  by simp

text \<open>
  C8, as the specification states it, fails in the concrete implementation, beyond any
  tolerance. For \<open>a = (1, 0)\<close> and \<open>b = (-2^53, 0)\<close> the difference of the abscissas,
  \<open>2^53 + 1\<close>, is rounded to \<open>2^53\<close>, and adding \<open>b.x\<close> back gives \<open>0\<close>, not \<open>1\<close>. For
  \<open>a = (2^1023, 0)\<close> and \<open>b = (-2^1023, 0)\<close> the difference overflows, and the result has
  \<open>Infinity\<close> for \<open>x\<close>.
\<close>

theorem Add_after_Subtract_loses_digits_counterexample:
  "point_at rounding_heap (Ref 0) 1 0 \<and>
   point_at rounding_heap (Ref 1) (- two_53) 0 \<and>
   returns_numbers
     (bindM (Subtract example_host (Ref 0) (Ref 1))
        (\<lambda>diff. Add example_host diff (Ref 1) Undefined) rounding_heap)
     (Fin 0) (Fin 0) \<and>
   \<not> returns_point
     (bindM (Subtract example_host (Ref 0) (Ref 1))
        (\<lambda>diff. Add example_host diff (Ref 1) Undefined) rounding_heap)
     1 0 \<and>
   point_at overflow_heap (Ref 0) huge 0 \<and>
   point_at overflow_heap (Ref 1) (- huge) 0 \<and>
   returns_numbers
     (bindM (Subtract example_host (Ref 0) (Ref 1))
        (\<lambda>diff. Add example_host diff (Ref 1) Undefined) overflow_heap)
     PInf (Fin 0)"
proof -
  have a: "point_at rounding_heap (Ref 0) 1 0" and b: "point_at rounding_heap (Ref 1) (- two_53) 0"
    by (simp_all add: rnd_facts del: point_at.simps)
  have c: "returns_numbers
     (bindM (Subtract example_host (Ref 0) (Ref 1))
        (\<lambda>diff. Add example_host diff (Ref 1) Undefined) rounding_heap)
     (Fin 0) (Fin 0)"
    using Add_Subtract_value [OF a b, of example_host]
    by (simp add: new_num_point_def round64_cancel round64_0)
  have d: "\<not> returns_point
     (bindM (Subtract example_host (Ref 0) (Ref 1))
        (\<lambda>diff. Add example_host diff (Ref 1) Undefined) rounding_heap)
     1 0"
    using returns_numbers_unique [OF c, of "Fin 1" "Fin 0"] by (auto simp: returns_point_num)
  have e: "point_at overflow_heap (Ref 0) huge 0" and f: "point_at overflow_heap (Ref 1) (- huge) 0"
    by (simp_all add: ovf_facts del: point_at.simps)
  have g: "returns_numbers
     (bindM (Subtract example_host (Ref 0) (Ref 1))
        (\<lambda>diff. Add example_host diff (Ref 1) Undefined) overflow_heap)
     PInf (Fin 0)"
    using Add_Subtract_value [OF e f, of example_host]
    by (simp add: new_num_point_def round64_overflow round64_0)
  show ?thesis by (intro conjI) (rule a, rule b, rule c, rule d, rule e, rule f, rule g)
qed

text \<open>
  C8 (amended). For all well-formed Points \<open>a\<close> and \<open>b\<close>, \<open>Add(Subtract(a, b), b)\<close> is a new
  Point whose coordinates are those of \<open>a\<close> after two roundings: the rounded difference
  \<open>a.x - b.x\<close> plus \<open>b.x\<close>, rounded again, and likewise for \<open>y\<close>. It is a Point with the
  coordinates of \<open>a\<close> when the differences \<open>a.x - b.x\<close> and \<open>a.y - b.y\<close> are doubles, so
  that nothing is rounded (the coordinates of \<open>a\<close> being doubles themselves).
\<close>

theorem Add_after_Subtract_rounds_twice:
  assumes a: "point_at h a px py" and b: "point_at h b qx qy"
  shows "new_num_point h (bindM (Subtract rt a b) (\<lambda>diff. Add rt diff b Undefined) h)
           (num_add (round64 (px - qx)) (Fin qx)) (num_add (round64 (py - qy)) (Fin qy)) \<and>
         (exact64 (px - qx) \<and> exact64 px \<and> exact64 (py - qy) \<and> exact64 py \<longrightarrow>
            new_point h (bindM (Subtract rt a b) (\<lambda>diff. Add rt diff b Undefined) h) px py)"
proof
  show v: "new_num_point h (bindM (Subtract rt a b) (\<lambda>diff. Add rt diff b Undefined) h)
      (num_add (round64 (px - qx)) (Fin qx)) (num_add (round64 (py - qy)) (Fin qy))"
    using a b by (rule Add_Subtract_value)
  show "exact64 (px - qx) \<and> exact64 px \<and> exact64 (py - qy) \<and> exact64 py \<longrightarrow>
      new_point h (bindM (Subtract rt a b) (\<lambda>diff. Add rt diff b Undefined) h) px py"
  proof
    assume e: "exact64 (px - qx) \<and> exact64 px \<and> exact64 (py - qy) \<and> exact64 py"
    then have "num_add (round64 (px - qx)) (Fin qx) = Fin px"
      and "num_add (round64 (py - qy)) (Fin qy) = Fin py"
      by (simp_all add: exact64_def)
    with v show "new_point h (bindM (Subtract rt a b) (\<lambda>diff. Add rt diff b Undefined) h) px py"
      by (simp add: new_point_num)
  qed
qed

theorem Add_after_Subtract_rounds_twice_witness:
  "point_at example_heap (Ref 0) 1 0 \<and> point_at example_heap (Ref 1) 0 0 \<and>
   exact64 (1 - 0) \<and> exact64 1 \<and> exact64 (0 - 0) \<and> exact64 0 \<and> exact64 (1 - 1) \<and>
   new_point example_heap
     (bindM (Subtract example_host (Ref 0) (Ref 1)) (\<lambda>diff. Add example_host diff (Ref 1) Undefined)
        example_heap) 1 0 \<and>
   new_point example_heap
     (bindM (Subtract example_host (Ref 0) (Ref 0)) (\<lambda>diff. Add example_host diff (Ref 0) Undefined)
        example_heap) 1 0"
proof -
  have a: "point_at example_heap (Ref 0) 1 0" and b: "point_at example_heap (Ref 1) 0 0"
    by (simp_all add: ex_facts del: point_at.simps)
  have x: "exact64 (1 - 0)" "exact64 1" "exact64 (0 - 0)" "exact64 0" "exact64 (1 - 1)"
    by (simp_all add: exact64_0 exact64_1)
  note t = Add_after_Subtract_rounds_twice [OF a b, of example_host, THEN conjunct2]
  note u = Add_after_Subtract_rounds_twice [OF a a, of example_host, THEN conjunct2]
  have c: "new_point example_heap
     (bindM (Subtract example_host (Ref 0) (Ref 1)) (\<lambda>diff. Add example_host diff (Ref 1) Undefined)
        example_heap) 1 0"
    using t x by simp
  have d: "new_point example_heap
     (bindM (Subtract example_host (Ref 0) (Ref 0)) (\<lambda>diff. Add example_host diff (Ref 0) Undefined)
        example_heap) 1 0"
    using u x by simp
  show ?thesis by (intro conjI) (rule a, rule b, rule x(1), rule x(2), rule x(3), rule x(4),
      rule x(5), rule c, rule d)
qed

text \<open>
  C9. For every arc object, \<open>FromArc(arc)\<close> returns a new array of two elements, the
  start point first and the end point second, each being
  \<open>Add(arc.origin, FromPolar(ToRadians(angle), arc.radius))\<close> for its angle; nothing is
  required of the angles or of the sign of the radius. For an origin \<open>(ox, oy)\<close>, a finite
  radius \<open>r\<close> and finite angles the two Points have the coordinates \<open>ox + r * cos\<close> and
  \<open>oy + r * sin\<close> of the start and of the end angle, as doubles compute them.
\<close>

theorem FromArc_is_start_then_end:
  assumes "n < length h"
  shows "FromArc rt (Ref n) h =
           bindM (arc_point rt (own_prop h n ''origin'') (own_prop h n ''radius'')
                    (own_prop h n ''startAngle''))
             (\<lambda>p0. bindM (arc_point rt (own_prop h n ''origin'') (own_prop h n ''radius'')
                              (own_prop h n ''endAngle''))
             (\<lambda>p1. alloc (array_obj [p0, p1]))) h \<and>
         (point_like h (own_prop h n ''origin'') ox oy \<and>
          own_prop h n ''radius'' = Num (Fin r) \<and>
          (\<forall>h'. ToRadians rt h' (own_prop h n ''startAngle'') = Inr (Num (Fin ts))) \<and>
          (\<forall>h'. ToRadians rt h' (own_prop h n ''endAngle'') = Inr (Num (Fin te))) \<longrightarrow>
            returns_points h (FromArc rt (Ref n) h)
              (num_add (Fin ox) (num_mul (Fin r) (MathCos rt ts)),
               num_add (Fin oy) (num_mul (Fin r) (MathSin rt ts)))
              (num_add (Fin ox) (num_mul (Fin r) (MathCos rt te)),
               num_add (Fin oy) (num_mul (Fin r) (MathSin rt te))))"
proof
  show "FromArc rt (Ref n) h =
      bindM (arc_point rt (own_prop h n ''origin'') (own_prop h n ''radius'')
               (own_prop h n ''startAngle''))
        (\<lambda>p0. bindM (arc_point rt (own_prop h n ''origin'') (own_prop h n ''radius'')
                         (own_prop h n ''endAngle''))
        (\<lambda>p1. alloc (array_obj [p0, p1]))) h"
    using assms by (rule FromArc_unfold)
  show "point_like h (own_prop h n ''origin'') ox oy \<and>
      own_prop h n ''radius'' = Num (Fin r) \<and>
      (\<forall>h'. ToRadians rt h' (own_prop h n ''startAngle'') = Inr (Num (Fin ts))) \<and>
      (\<forall>h'. ToRadians rt h' (own_prop h n ''endAngle'') = Inr (Num (Fin te))) \<longrightarrow>
        returns_points h (FromArc rt (Ref n) h)
          (num_add (Fin ox) (num_mul (Fin r) (MathCos rt ts)),
           num_add (Fin oy) (num_mul (Fin r) (MathSin rt ts)))
          (num_add (Fin ox) (num_mul (Fin r) (MathCos rt te)),
           num_add (Fin oy) (num_mul (Fin r) (MathSin rt te)))"
    using assms FromArc_value [of n h "Fin ox" "Fin oy" "Fin r" rt "Fin ts" "Fin te"]
      point_like_coerces [of h "own_prop h n ''origin''" ox oy]
    by auto
qed

theorem FromArc_is_start_then_end_witness:
  "(3::nat) < length example_heap \<and>
   point_like example_heap (own_prop example_heap 3 ''origin'') 0 0 \<and>
   own_prop example_heap 3 ''radius'' = Num (Fin 5) \<and>
   ToRadians example_host example_heap (own_prop example_heap 3 ''startAngle'') =
     Inr (Num (Fin 0)) \<and>
   ToRadians example_host example_heap (own_prop example_heap 3 ''endAngle'') =
     Inr (Num (Fin quarter_turn)) \<and>
   FromArc example_host (Ref 3) example_heap =
     bindM (arc_point example_host (Ref 1) (Num (Fin 5)) (Num (Fin 0)))
       (\<lambda>p0. bindM (arc_point example_host (Ref 1) (Num (Fin 5)) (Num (Fin 90)))
       (\<lambda>p1. alloc (array_obj [p0, p1]))) example_heap \<and>
   returns_points example_heap (FromArc example_host (Ref 3) example_heap)
     (Fin 5, Fin 0)
     (num_add (Fin 0) (num_mul (Fin 5) (round64 (cos quarter_turn))),
      num_add (Fin 0) (num_mul (Fin 5) (round64 (sin quarter_turn))))"
proof -
  have a: "(3::nat) < length example_heap" by (simp add: ex_facts)
  have b: "point_like example_heap (own_prop example_heap 3 ''origin'') 0 0"
    by (simp add: ex_facts point_like_def del: point_at.simps)
  have c: "own_prop example_heap 3 ''radius'' = Num (Fin 5)" by (simp add: ex_facts)
  have s: "\<And>h'. ToRadians example_host h' (own_prop example_heap 3 ''startAngle'') =
      Inr (Num (Fin 0))"
    by (simp add: ex_facts ex_host nearest_double_0 quarter_turn_def)
  have e: "\<And>h'. ToRadians example_host h' (own_prop example_heap 3 ''endAngle'') =
      Inr (Num (Fin quarter_turn))"
    by (simp add: ex_facts ex_host nearest_double_0 quarter_turn_def)
  note t = FromArc_is_start_then_end [OF a, where rt = example_host and ox = 0 and oy = 0
      and r = 5 and ts = 0 and te = quarter_turn]
  have f: "FromArc example_host (Ref 3) example_heap =
     bindM (arc_point example_host (Ref 1) (Num (Fin 5)) (Num (Fin 0)))
       (\<lambda>p0. bindM (arc_point example_host (Ref 1) (Num (Fin 5)) (Num (Fin 90)))
       (\<lambda>p1. alloc (array_obj [p0, p1]))) example_heap"
    using t [THEN conjunct1] by (simp add: ex_facts)
  have g: "returns_points example_heap (FromArc example_host (Ref 3) example_heap)
     (Fin 5, Fin 0)
     (num_add (Fin 0) (num_mul (Fin 5) (round64 (cos quarter_turn))),
      num_add (Fin 0) (num_mul (Fin 5) (round64 (sin quarter_turn))))"
    using t [THEN conjunct2] b c s e
    by (simp add: ex_host round64_0 round64_1 round64_small)
  show ?thesis by (intro conjI) (rule a, rule b, rule c, rule s, rule e, rule f, rule g)
qed

text \<open>
  C10. \<open>Mirror\<close> and \<open>Scale\<close> coerce their point argument through \<open>Ensure\<close>: on an absent
  or falsy input they return what they return on a Point at the origin, and on an array
  starting with the numbers \<open>cx\<close>, \<open>cy\<close> what they return on the Point \<open>(cx, cy)\<close>; they
  do not fail on such inputs. \<open>Mirror\<close> negates the coordinates it is asked to, and
  \<open>Scale\<close> gives the products with the scale, rounded to the nearest double.
\<close>

theorem Mirror_and_Scale_coerce_input:
  "(\<not> ToBoolean item \<and> cx = 0 \<and> cy = 0 \<or> pair_at h item cx cy \<longrightarrow>
      new_point h (Mirror rt item mx my h)
        (if ToBoolean mx then - cx else cx) (if ToBoolean my then - cy else cy) \<and>
      new_num_point h (Scale rt item (Num (Fin k)) h) (round64 (cx * k)) (round64 (cy * k))) \<and>
   (point_at h p cx cy \<longrightarrow>
      new_point h (Mirror rt p mx my h)
        (if ToBoolean mx then - cx else cx) (if ToBoolean my then - cy else cy) \<and>
      new_num_point h (Scale rt p (Num (Fin k)) h) (round64 (cx * k)) (round64 (cy * k)))"
proof -
  have m: "new_point h (Mirror rt v mx my h)
        (if ToBoolean mx then - cx else cx) (if ToBoolean my then - cy else cy) \<and>
      new_num_point h (Scale rt v (Num (Fin k)) h) (round64 (cx * k)) (round64 (cy * k))"
    if l: "point_like h v cx cy" for v
  proof -
    from l have c: "coerces_to h v (Fin cx) (Fin cy)" by (rule point_like_coerces)
    then have "new_num_point h (Mirror rt v mx my h)
        (if ToBoolean mx then num_neg (Fin cx) else Fin cx)
        (if ToBoolean my then num_neg (Fin cy) else Fin cy)"
      by (rule Mirror_value)
    then have 1: "new_point h (Mirror rt v mx my h)
        (if ToBoolean mx then - cx else cx) (if ToBoolean my then - cy else cy)"
      by (cases "ToBoolean mx"; cases "ToBoolean my") (simp_all add: new_point_num)
    from c have 2: "new_num_point h (Scale rt v (Num (Fin k)) h)
        (round64 (cx * k)) (round64 (cy * k))"
      using Scale_value [of h v "Fin cx" "Fin cy" rt "Fin k"] by simp
    from 1 2 show ?thesis by (rule conjI)
  qed
  have c1: "\<not> ToBoolean item \<and> cx = 0 \<and> cy = 0 \<or> pair_at h item cx cy \<longrightarrow>
      new_point h (Mirror rt item mx my h)
        (if ToBoolean mx then - cx else cx) (if ToBoolean my then - cy else cy) \<and>
      new_num_point h (Scale rt item (Num (Fin k)) h) (round64 (cx * k)) (round64 (cy * k))"
  proof
    assume "\<not> ToBoolean item \<and> cx = 0 \<and> cy = 0 \<or> pair_at h item cx cy"
    then have "point_like h item cx cy" by (auto simp: point_like_def)
    then show "new_point h (Mirror rt item mx my h)
        (if ToBoolean mx then - cx else cx) (if ToBoolean my then - cy else cy) \<and>
      new_num_point h (Scale rt item (Num (Fin k)) h) (round64 (cx * k)) (round64 (cy * k))"
      by (rule m)
  qed
  have c2: "point_at h p cx cy \<longrightarrow>
      new_point h (Mirror rt p mx my h)
        (if ToBoolean mx then - cx else cx) (if ToBoolean my then - cy else cy) \<and>
      new_num_point h (Scale rt p (Num (Fin k)) h) (round64 (cx * k)) (round64 (cy * k))"
  proof
    assume "point_at h p cx cy"
    then have "point_like h p cx cy" by (simp add: point_like_def)
    then show "new_point h (Mirror rt p mx my h)
        (if ToBoolean mx then - cx else cx) (if ToBoolean my then - cy else cy) \<and>
      new_num_point h (Scale rt p (Num (Fin k)) h) (round64 (cx * k)) (round64 (cy * k))"
      by (rule m)
  qed
  from c1 c2 show ?thesis by (rule conjI)
qed

theorem Mirror_and_Scale_coerce_input_witness:
  "\<not> ToBoolean Null \<and> point_at example_heap (Ref 1) 0 0 \<and>
   new_point example_heap (Mirror example_host Null (Bool True) (Bool True) example_heap) 0 0 \<and>
   new_point example_heap (Mirror example_host (Ref 1) (Bool True) (Bool True) example_heap) 0 0 \<and>
   new_point example_heap (Scale example_host Null (Num (Fin 2)) example_heap) 0 0 \<and>
   new_point example_heap (Scale example_host (Ref 1) (Num (Fin 2)) example_heap) 0 0 \<and>
   pair_at example_heap (Ref 2) 3 4 \<and>
   new_point example_heap (Mirror example_host (Ref 2) (Bool True) (Bool False) example_heap) (- 3) 4 \<and>
   new_point example_heap (Scale example_host (Ref 2) (Num (Fin 2)) example_heap) 6 8"
  using Mirror_and_Scale_coerce_input [where h = example_heap and rt = example_host
      and item = Null and cx = 0 and cy = 0 and p = "Ref 1" and mx = "Bool True" and my = "Bool True"
      and k = 2]
    Mirror_and_Scale_coerce_input [where h = example_heap and rt = example_host
      and item = "Ref 2" and cx = 3 and cy = 4 and p = Null and mx = "Bool True" and my = "Bool False"
      and k = 2]
  by (simp add: ex_facts new_point_num round64_0 round64_small del: point_at.simps)

end
